theory Spec2Isabelle
  imports Complex_Main "HOL-Library.Sublist" "HOL-Library.Code_Target_Nat"
begin

section \<open>JavaScript values\<close>

text \<open>
  The values that reach the validator of \<^verbatim>\<open>src/js/validator.js\<close> are form values and rule
  parameters: \<^verbatim>\<open>undefined\<close>, \<^verbatim>\<open>null\<close>, booleans, numbers and strings, and plain objects
  holding such values. A finite Number is the rational it denotes (which rationals are
  doubles is not modelled; \<^verbatim>\<open>-0\<close> is \<^verbatim>\<open>0\<close>). A string is its sequence of code units, taken
  below 256.
\<close>

datatype jsnum = Fin rat | NaN | PosInf | NegInf

datatype jsval =
    JUndefined
  | JNull
  | JBool bool
  | JNum jsnum
  | JStr string

text \<open>A value that may also be a plain object (rule parameters).\<close>

datatype jsarg = Prim jsval | Obj "(string \<times> jsval) list"

text \<open>
  A property read \<^verbatim>\<open>obj[name]\<close> of a plain object that has no own property of that name
  goes on to \<^verbatim>\<open>Object.prototype\<close>. What it finds there is no primitive value: it is a
  built-in function, or under the name \<^verbatim>\<open>__proto__\<close> the prototype object itself. So the
  value of a field, which \<^verbatim>\<open>validateForm\<close> reads from the form data, is a primitive value
  or one of these members, known by the name it stands under.
\<close>

datatype jsany = Plain jsval | Inherited string

definition Object_prototype_names :: "string list" where
  "Object_prototype_names =
     [''constructor'', ''__defineGetter__'', ''__defineSetter__'', ''hasOwnProperty'',
      ''__lookupGetter__'', ''__lookupSetter__'', ''isPrototypeOf'', ''propertyIsEnumerable'',
      ''toString'', ''valueOf'', ''__proto__'', ''toLocaleString'']"

text \<open>
  The exceptions of the model: the engine's own \<^verbatim>\<open>TypeError\<close> and \<^verbatim>\<open>SyntaxError\<close>, and
  whatever a registered predicate throws.
\<close>

datatype error = TypeError | SyntaxError | Thrown string

text \<open>\<^verbatim>\<open>!value\<close>: the values JavaScript treats as false.\<close>

fun falsy :: "jsval \<Rightarrow> bool" where
  "falsy JUndefined = True"
| "falsy JNull = True"
| "falsy (JBool b) = (\<not> b)"
| "falsy (JNum n) = (n = Fin 0 \<or> n = NaN)"
| "falsy (JStr s) = (s = [])"

text \<open>\<^verbatim>\<open>!params\<close> on something that may be an object: every object is truthy.\<close>

fun falsy_arg :: "jsarg \<Rightarrow> bool" where
  "falsy_arg (Prim v) = falsy v"
| "falsy_arg (Obj kvs) = False"

text \<open>\<^verbatim>\<open>!value\<close> on the value of a field: a function and an object are truthy.\<close>

fun falsy_any :: "jsany \<Rightarrow> bool" where
  "falsy_any (Plain v) = falsy v"
| "falsy_any (Inherited n) = False"

section \<open>The host: what the JavaScript engine computes\<close>

text \<open>
  Parsing and printing of numbers, the text of a built-in function, regular expressions
  built from a string, \<^verbatim>\<open>Date\<close> and \<^verbatim>\<open>URL\<close> are the engine's, not the repository's. They are
  parameters of the model; every theorem below holds for every host.
\<close>

record host =
  StringToNumber :: "string \<Rightarrow> jsnum"
    \<comment> \<open>\<^verbatim>\<open>ToNumber\<close> of a string\<close>
  NumberToString :: "rat \<Rightarrow> string"
    \<comment> \<open>the text of a finite number that is not an integer of at most 53 bits\<close>
  FunctionToString :: "string \<Rightarrow> string"
    \<comment> \<open>the text of the built-in function that \<^verbatim>\<open>Object.prototype\<close> has under a name\<close>
  parseFloat_str :: "string \<Rightarrow> jsnum"
    \<comment> \<open>\<^verbatim>\<open>parseFloat\<close> of the text of its argument\<close>
  parseInt_str :: "string \<Rightarrow> jsnum"
    \<comment> \<open>\<^verbatim>\<open>parseInt\<close> of the text of its argument\<close>
  RegExp_test :: "string \<Rightarrow> string \<Rightarrow> error + bool"
    \<comment> \<open>\<^verbatim>\<open>new RegExp(source).test(text)\<close>; \<^verbatim>\<open>SyntaxError\<close> when the source is no pattern\<close>
  RegExp_replace :: "string \<Rightarrow> string \<Rightarrow> string \<Rightarrow> error + string"
    \<comment> \<open>\<^verbatim>\<open>text.replace(new RegExp(source, 'g'), replacement)\<close>, arguments in the order
        source, text, replacement\<close>
  Date_valid :: "jsany \<Rightarrow> bool"
    \<comment> \<open>\<^verbatim>\<open>!isNaN(new Date(value))\<close>\<close>
  URL_parses :: "string \<Rightarrow> bool"
    \<comment> \<open>\<^verbatim>\<open>new URL(text)\<close> does not throw\<close>

section \<open>Strings\<close>

definition digit_chars :: string where
  "digit_chars = ''0123456789''"

function show_nat :: "nat \<Rightarrow> string" where
  "show_nat n = (if n < 10 then [digit_chars ! n] else show_nat (n div 10) @ [digit_chars ! (n mod 10)])"
  by pat_completeness auto
termination
  by (relation "measure id") auto

definition show_int :: "int \<Rightarrow> string" where
  "show_int i = (if i < 0 then CHR ''-'' # show_nat (nat (- i)) else show_nat (nat i))"

text \<open>
  The text of a number: decimal digits for an integer of at most 53 bits, the host's
  otherwise.
\<close>

fun number_text :: "host \<Rightarrow> jsnum \<Rightarrow> string" where
  "number_text h (Fin x) =
     (if x = of_int \<lfloor>x\<rfloor> \<and> \<bar>x\<bar> \<le> 9007199254740992 then show_int \<lfloor>x\<rfloor> else NumberToString h x)"
| "number_text h NaN = ''NaN''"
| "number_text h PosInf = ''Infinity''"
| "number_text h NegInf = ''-Infinity''"

text \<open>\<^verbatim>\<open>String(value)\<close>, the text form of a primitive value.\<close>

fun text_form :: "host \<Rightarrow> jsval \<Rightarrow> string" where
  "text_form h JUndefined = ''undefined''"
| "text_form h JNull = ''null''"
| "text_form h (JBool b) = (if b then ''true'' else ''false'')"
| "text_form h (JNum n) = number_text h n"
| "text_form h (JStr s) = s"

text \<open>\<^verbatim>\<open>value.toString()\<close>: a method call, so a \<^verbatim>\<open>TypeError\<close> on \<^verbatim>\<open>undefined\<close> and \<^verbatim>\<open>null\<close>.\<close>

fun toString :: "host \<Rightarrow> jsval \<Rightarrow> error + string" where
  "toString h JUndefined = Inl TypeError"
| "toString h JNull = Inl TypeError"
| "toString h v = Inr (text_form h v)"

text \<open>
  The same two on the value of a field. The prototype object prints as
  \<^verbatim>\<open>[object Object]\<close>, a built-in function as the host prints it; both have \<^verbatim>\<open>toString\<close>.
\<close>

fun text_any :: "host \<Rightarrow> jsany \<Rightarrow> string" where
  "text_any h (Plain v) = text_form h v"
| "text_any h (Inherited n) = (if n = ''__proto__'' then ''[object Object]'' else FunctionToString h n)"

fun toString_any :: "host \<Rightarrow> jsany \<Rightarrow> error + string" where
  "toString_any h (Plain v) = toString h v"
| "toString_any h (Inherited n) = Inr (text_any h (Inherited n))"

text \<open>
  White space and line terminators, as \<^verbatim>\<open>trim\<close> and the class \<^verbatim>\<open>\s\<close> read them, among the
  code units below 256: tab, line feed, vertical tab, form feed, carriage return, space
  and no-break space.
\<close>

definition is_space :: "char \<Rightarrow> bool" where
  "is_space c = (c \<in> set [CHR 0x09, CHR 0x0A, CHR 0x0B, CHR 0x0C, CHR 0x0D, CHR 0x20, CHR 0xA0])"

definition trim :: "string \<Rightarrow> string" where
  "trim s = rev (dropWhile is_space (rev (dropWhile is_space s)))"

definition is_digit :: "char \<Rightarrow> bool" where
  "is_digit c = (c \<in> set digit_chars)"

definition is_upper :: "char \<Rightarrow> bool" where
  "is_upper c = (c \<in> set ''ABCDEFGHIJKLMNOPQRSTUVWXYZ'')"

definition is_lower :: "char \<Rightarrow> bool" where
  "is_lower c = (c \<in> set ''abcdefghijklmnopqrstuvwxyz'')"

section \<open>The regular expressions written in the source\<close>

text \<open>
  The literals of \<^verbatim>\<open>initializeDefaultRules\<close> repeat character classes only, so a small
  pattern type covers them: one character of a class, a class repeated between a lower
  and an optional upper bound, an optional pattern, and a sequence. \<open>rx_match r s\<close>
  lists what is left of \<open>s\<close> after each way of matching \<open>r\<close> at its start.
\<close>

datatype rx = Class "char \<Rightarrow> bool" | Many "char \<Rightarrow> bool" nat "nat option" | Opt rx | Seq rx rx

fun rx_match :: "rx \<Rightarrow> string \<Rightarrow> string list" where
  "rx_match (Class P) s = (case s of [] \<Rightarrow> [] | c # cs \<Rightarrow> if P c then [cs] else [])"
| "rx_match (Many P lo hi) s =
     (let k = length (takeWhile P s);
          top = (case hi of None \<Rightarrow> k | Some m \<Rightarrow> min k m)
      in map (\<lambda>n. drop n s) [lo ..< Suc top])"
| "rx_match (Opt r) s = s # rx_match r s"
| "rx_match (Seq a b) s = concat (map (rx_match b) (rx_match a s))"

text \<open>\<^verbatim>\<open>/^r$/.test(s)\<close>: some way of matching \<open>r\<close> uses up the whole of \<open>s\<close>.\<close>

definition rx_full :: "rx \<Rightarrow> string \<Rightarrow> bool" where
  "rx_full r s = ([] \<in> set (rx_match r s))"

text \<open>\<^verbatim>\<open>/^[^\s@]+@[^\s@]+\.[^\s@]+$/\<close>\<close>

definition email_part :: "char \<Rightarrow> bool" where
  "email_part c = (\<not> is_space c \<and> c \<noteq> CHR ''@'')"

definition emailRegex :: rx where
  "emailRegex =
     Seq (Many email_part 1 None)
       (Seq (Class (\<lambda>c. c = CHR ''@''))
         (Seq (Many email_part 1 None)
           (Seq (Class (\<lambda>c. c = CHR ''.'')) (Many email_part 1 None))))"

text \<open>\<^verbatim>\<open>/^[\+]?[1-9][\d]{0,15}$/\<close>\<close>

definition phoneRegex :: rx where
  "phoneRegex =
     Seq (Opt (Class (\<lambda>c. c = CHR ''+'')))
       (Seq (Class (\<lambda>c. c \<in> set ''123456789'')) (Many is_digit 0 (Some 15)))"

text \<open>\<^verbatim>\<open>value.replace(/[\s\-\(\)]/g, '')\<close>\<close>

definition strip_phone :: "string \<Rightarrow> string" where
  "strip_phone s = filter (\<lambda>c. \<not> (is_space c \<or> c \<in> set ''-()'')) s"

text \<open>\<^verbatim>\<open>/[!@#$%^&*(),.?":{}|<>]/\<close>\<close>

definition is_special :: "char \<Rightarrow> bool" where
  "is_special c = (c \<in> set (''!@#$%^&*(),.?:{}|<>'' @ [CHR 0x22]))"

section \<open>Numbers, comparison, parameters\<close>

text \<open>\<^verbatim>\<open>ToNumber\<close> of a primitive value.\<close>

fun to_number :: "host \<Rightarrow> jsval \<Rightarrow> jsnum" where
  "to_number h JUndefined = NaN"
| "to_number h JNull = Fin 0"
| "to_number h (JBool b) = (if b then Fin 1 else Fin 0)"
| "to_number h (JNum n) = n"
| "to_number h (JStr s) = StringToNumber h s"

text \<open>
  \<^verbatim>\<open>ToNumber\<close> of the value of a field: a function or an object is first converted to a
  primitive value, which for the members of \<^verbatim>\<open>Object.prototype\<close> is their text.
\<close>

fun to_number_any :: "host \<Rightarrow> jsany \<Rightarrow> jsnum" where
  "to_number_any h (Plain v) = to_number h v"
| "to_number_any h (Inherited n) = StringToNumber h (text_any h (Inherited n))"

fun num_le :: "jsnum \<Rightarrow> jsnum \<Rightarrow> bool" where
  "num_le NaN y = False"
| "num_le x NaN = False"
| "num_le NegInf y = True"
| "num_le x PosInf = True"
| "num_le (Fin a) (Fin b) = (a \<le> b)"
| "num_le x y = False"

text \<open>
  \<^verbatim>\<open>a >= b\<close> and \<^verbatim>\<open>a <= b\<close> where \<open>a\<close> is a number or \<^verbatim>\<open>undefined\<close>, as it is at every
  comparison of the source: both sides are converted to numbers.
\<close>

definition js_ge :: "host \<Rightarrow> jsval \<Rightarrow> jsval \<Rightarrow> bool" where
  "js_ge h a b = num_le (to_number h b) (to_number h a)"

definition js_le :: "host \<Rightarrow> jsval \<Rightarrow> jsval \<Rightarrow> bool" where
  "js_le h a b = num_le (to_number h a) (to_number h b)"

text \<open>
  \<^verbatim>\<open>a === b\<close>: primitive values are compared by value, \<^verbatim>\<open>NaN\<close> being equal to nothing; a
  member of \<^verbatim>\<open>Object.prototype\<close> is equal to itself only.
\<close>

definition strict_eq :: "jsany \<Rightarrow> jsany \<Rightarrow> bool" where
  "strict_eq a b = (a = b \<and> a \<noteq> Plain (JNum NaN))"

text \<open>\<^verbatim>\<open>a || d\<close>\<close>

definition or_default :: "jsval \<Rightarrow> jsval \<Rightarrow> jsval" where
  "or_default a d = (if falsy a then d else a)"

text \<open>\<^verbatim>\<open>isNaN(value)\<close>, \<^verbatim>\<open>parseFloat(value)\<close>, \<^verbatim>\<open>parseInt(value)\<close>\<close>

definition isNaN :: "host \<Rightarrow> jsany \<Rightarrow> bool" where
  "isNaN h v = (to_number_any h v = NaN)"

definition parseFloat :: "host \<Rightarrow> jsany \<Rightarrow> jsval" where
  "parseFloat h v = JNum (parseFloat_str h (text_any h v))"

definition parseInt :: "host \<Rightarrow> jsany \<Rightarrow> jsval" where
  "parseInt h v = JNum (parseInt_str h (text_any h v))"

text \<open>\<^verbatim>\<open>value.length\<close> of a primitive value.\<close>

fun value_length :: "jsval \<Rightarrow> jsval" where
  "value_length (JStr s) = JNum (Fin (of_nat (length s)))"
| "value_length v = JUndefined"

text \<open>
  \<^verbatim>\<open>value.length\<close> of the value of a field: the \<^verbatim>\<open>length\<close> of a function is the number of
  its parameters, and the prototype object has none.
\<close>

definition function_length :: "string \<Rightarrow> jsval" where
  "function_length n =
     (if n \<in> set [''toString'', ''valueOf'', ''toLocaleString''] then JNum (Fin 0)
      else if n \<in> set [''constructor'', ''hasOwnProperty'', ''isPrototypeOf'', ''propertyIsEnumerable'',
                         ''__lookupGetter__'', ''__lookupSetter__''] then JNum (Fin 1)
      else if n \<in> set [''__defineGetter__'', ''__defineSetter__''] then JNum (Fin 2)
      else JUndefined)"

fun length_any :: "jsany \<Rightarrow> jsval" where
  "length_any (Plain v) = value_length v"
| "length_any (Inherited n) = function_length n"

text \<open>
  \<^verbatim>\<open>obj[key]\<close> on a plain object: the own property if there is one, otherwise the member
  of \<^verbatim>\<open>Object.prototype\<close> of that name, otherwise \<^verbatim>\<open>undefined\<close>.
\<close>

definition formData_get :: "(string \<times> jsval) list \<Rightarrow> string \<Rightarrow> jsany" where
  "formData_get kvs k =
     (case map_of kvs k of
        Some v \<Rightarrow> Plain v
      | None \<Rightarrow> if k \<in> set Object_prototype_names then Inherited k else Plain JUndefined)"

text \<open>
  \<^verbatim>\<open>params.name\<close> for the seven names the built-in rules read (\<^verbatim>\<open>length\<close>, \<^verbatim>\<open>value\<close>,
  \<^verbatim>\<open>pattern\<close>, \<^verbatim>\<open>minLength\<close>, \<^verbatim>\<open>matchField\<close>, \<^verbatim>\<open>min\<close>, \<^verbatim>\<open>max\<close>). None of them is a name of
  \<^verbatim>\<open>Object.prototype\<close>, so on an object the read gives the own property, or \<^verbatim>\<open>undefined\<close>.
  It is a \<^verbatim>\<open>TypeError\<close> on \<^verbatim>\<open>undefined\<close> and \<^verbatim>\<open>null\<close>; of these names a string has \<^verbatim>\<open>length\<close>
  only, a boolean or a number none.
\<close>

definition obj_get :: "(string \<times> jsval) list \<Rightarrow> string \<Rightarrow> jsval" where
  "obj_get kvs k = (case map_of kvs k of None \<Rightarrow> JUndefined | Some v \<Rightarrow> v)"

fun param :: "jsarg \<Rightarrow> string \<Rightarrow> error + jsval" where
  "param (Obj kvs) k = Inr (obj_get kvs k)"
| "param (Prim JUndefined) k = Inl TypeError"
| "param (Prim JNull) k = Inl TypeError"
| "param (Prim (JStr s)) k = Inr (if k = ''length'' then value_length (JStr s) else JUndefined)"
| "param (Prim v) k = Inr JUndefined"

text \<open>Sequencing of computations that may throw.\<close>

fun bind :: "error + 'a \<Rightarrow> ('a \<Rightarrow> error + 'b) \<Rightarrow> error + 'b" where
  "bind (Inl e) f = Inl e"
| "bind (Inr x) f = f x"

section \<open>The built-in rules\<close>

text \<open>
  A predicate \<^verbatim>\<open>(value, params, formData) => ...\<close> returns a value or throws. The validator
  reads what it returns with \<^verbatim>\<open>!isValid\<close>, so the result is any value, a boolean for the
  built-in rules. A predicate is a function of its arguments alone.
\<close>

type_synonym formData = "(string \<times> jsval) list"

type_synonym predicate = "jsany \<Rightarrow> jsarg \<Rightarrow> formData \<Rightarrow> error + jsarg"

definition js_bool :: "bool \<Rightarrow> jsarg" where
  "js_bool b = Prim (JBool b)"

definition required :: "host \<Rightarrow> predicate" where
  "required h v p fd =
     (if v \<noteq> Plain JNull \<and> v \<noteq> Plain JUndefined
      then bind (toString_any h v) (\<lambda>s. Inr (js_bool (trim s \<noteq> [])))
      else Inr (js_bool False))"

definition minLength :: "host \<Rightarrow> predicate" where
  "minLength h v p fd =
     (if falsy_any v then Inr (js_bool True)
      else bind (toString_any h v) (\<lambda>s.
           bind (param p ''length'') (\<lambda>n.
           Inr (js_bool (js_ge h (value_length (JStr s)) n)))))"

definition maxLength :: "host \<Rightarrow> predicate" where
  "maxLength h v p fd =
     (if falsy_any v then Inr (js_bool True)
      else bind (toString_any h v) (\<lambda>s.
           bind (param p ''length'') (\<lambda>n.
           Inr (js_bool (js_le h (value_length (JStr s)) n)))))"

definition email :: "host \<Rightarrow> predicate" where
  "email h v p fd =
     (if falsy_any v then Inr (js_bool True)
      else Inr (js_bool (rx_full emailRegex (text_any h v))))"

text \<open>Only a string has \<^verbatim>\<open>replace\<close>: on any other value the call is a \<^verbatim>\<open>TypeError\<close>.\<close>

definition phone :: "host \<Rightarrow> predicate" where
  "phone h v p fd =
     (if falsy_any v then Inr (js_bool True)
      else (case v of
              Plain (JStr s) \<Rightarrow> Inr (js_bool (rx_full phoneRegex (strip_phone s)))
            | _ \<Rightarrow> Inl TypeError))"

definition number :: "host \<Rightarrow> predicate" where
  "number h v p fd =
     (if falsy_any v then Inr (js_bool True)
      else Inr (js_bool (\<not> isNaN h v \<and> \<not> isNaN h (Plain (parseFloat h v)))))"

definition min_rule :: "host \<Rightarrow> predicate" where
  "min_rule h v p fd =
     (if falsy_any v then Inr (js_bool True)
      else bind (param p ''value'') (\<lambda>b. Inr (js_bool (js_ge h (parseFloat h v) b))))"

definition max_rule :: "host \<Rightarrow> predicate" where
  "max_rule h v p fd =
     (if falsy_any v then Inr (js_bool True)
      else bind (param p ''value'') (\<lambda>b. Inr (js_bool (js_le h (parseFloat h v) b))))"

text \<open>\<^verbatim>\<open>new RegExp(undefined)\<close> is the empty pattern; any other value gives its text.\<close>

definition pattern :: "host \<Rightarrow> predicate" where
  "pattern h v p fd =
     (if falsy_any v then Inr (js_bool True)
      else bind (param p ''pattern'') (\<lambda>src.
           bind (RegExp_test h (if src = JUndefined then [] else text_form h src) (text_any h v))
             (\<lambda>b. Inr (js_bool b))))"

definition password :: "host \<Rightarrow> predicate" where
  "password h v p fd =
     (if falsy_any v then Inr (js_bool True)
      else (let hasUpperCase = list_ex is_upper (text_any h v);
                hasLowerCase = list_ex is_lower (text_any h v);
                hasNumbers = list_ex is_digit (text_any h v);
                hasSpecialChar = list_ex is_special (text_any h v)
            in bind (param p ''minLength'') (\<lambda>m.
               let isLongEnough = js_ge h (length_any v) (or_default m (JNum (Fin 8)))
               in Inr (js_bool (hasUpperCase \<and> hasLowerCase \<and> hasNumbers \<and> hasSpecialChar
                                \<and> isLongEnough)))))"

definition confirmPassword :: "host \<Rightarrow> predicate" where
  "confirmPassword h v p fd =
     (if falsy_any v then Inr (js_bool True)
      else bind (param p ''matchField'') (\<lambda>k.
           let originalPassword = formData_get fd (text_form h k)
           in Inr (js_bool (strict_eq v originalPassword))))"

definition age :: "host \<Rightarrow> predicate" where
  "age h v p fd =
     (if falsy_any v then Inr (js_bool True)
      else (let age = parseInt h v
            in bind (param p ''min'') (\<lambda>mn.
               bind (param p ''max'') (\<lambda>mx.
               let minAge = or_default mn (JNum (Fin 0));
                   maxAge = or_default mx (JNum (Fin 120))
               in Inr (js_bool (js_ge h age minAge \<and> js_le h age maxAge))))))"

definition date :: "host \<Rightarrow> predicate" where
  "date h v p fd = (if falsy_any v then Inr (js_bool True) else Inr (js_bool (Date_valid h v)))"

definition url :: "host \<Rightarrow> predicate" where
  "url h v p fd =
     (if falsy_any v then Inr (js_bool True) else Inr (js_bool (URL_parses h (text_any h v))))"

section \<open>The data model\<close>

text \<open>
  A rule reference is a bare rule name or an object \<^verbatim>\<open>{name, params, message}\<close>. \<^verbatim>\<open>params\<close> is
  whatever the caller put there (\<open>Prim JUndefined\<close> when the property is missing);
  \<^verbatim>\<open>message\<close> is a string or missing.
\<close>

datatype rule_ref = Bare string | Ref string jsarg "string option"

text \<open>
  The \<^verbatim>\<open>rules\<close> property of a configuration object: an array of rule references, or some
  value that is no array (\<open>Prim JUndefined\<close> when the property is missing). A
  configuration is an object, or a primitive value that a caller passed in its place.
\<close>

datatype rules_value = RuleList "rule_ref list" | NotAList jsarg

datatype field_config = Config rules_value | ConfigPrim jsval

record RuleFailure =
  rule :: string
  message :: string
  params :: jsarg

record FieldValidationResult =
  isValid :: bool
  errors :: "RuleFailure list"

text \<open>\<^verbatim>\<open>{field: fieldName, ...error}\<close>\<close>

record FieldError = RuleFailure +
  field :: string

record FormValidationResult =
  form_isValid :: bool
  form_fields :: "(string \<times> FieldValidationResult) list"
  form_errors :: "FieldError list"

section \<open>Maps and objects\<close>

text \<open>
  A JavaScript \<^verbatim>\<open>Map\<close> keeps its entries in insertion order: \<^verbatim>\<open>set\<close> on a present key
  replaces the value where it stands, on a new key appends the entry.
\<close>

definition Map_get :: "(string \<times> 'a) list \<Rightarrow> string \<Rightarrow> 'a option" where
  "Map_get m k = map_of m k"

fun Map_set :: "(string \<times> 'a) list \<Rightarrow> string \<Rightarrow> 'a \<Rightarrow> (string \<times> 'a) list" where
  "Map_set [] k v = [(k, v)]"
| "Map_set ((k', v') # m) k v = (if k' = k then (k, v) # m else (k', v') # Map_set m k v)"

definition Map_delete :: "(string \<times> 'a) list \<Rightarrow> string \<Rightarrow> (string \<times> 'a) list" where
  "Map_delete m k = filter (\<lambda>kv. fst kv \<noteq> k) m"

text \<open>
  The own properties of a plain object are enumerated with the array indices first, in
  ascending order, then the other names in the order of their creation. An array index
  is the canonical decimal text of a number below \<open>2^32 - 1\<close>.
\<close>

definition digits_value :: "string \<Rightarrow> nat" where
  "digits_value s = foldl (\<lambda>n c. 10 * n + (of_char c - 48)) 0 s"

definition array_index :: "string \<Rightarrow> nat option" where
  "array_index s =
     (if s \<noteq> [] \<and> list_all is_digit s \<and> (s = ''0'' \<or> take 1 s \<noteq> ''0'')
         \<and> digits_value s < 4294967295
      then Some (digits_value s) else None)"

fun obj_insert_index :: "nat \<Rightarrow> string \<Rightarrow> 'a \<Rightarrow> (string \<times> 'a) list \<Rightarrow> (string \<times> 'a) list" where
  "obj_insert_index n k v [] = [(k, v)]"
| "obj_insert_index n k v ((k', v') # kvs) =
     (case array_index k' of
        Some m \<Rightarrow> if m < n then (k', v') # obj_insert_index n k v kvs else (k, v) # (k', v') # kvs
      | None \<Rightarrow> (k, v) # (k', v') # kvs)"

text \<open>
  \<^verbatim>\<open>obj[k] = v\<close> on a plain object. Under the name \<^verbatim>\<open>__proto__\<close> the assignment goes to
  the setter of \<^verbatim>\<open>Object.prototype\<close>, which gives the object no own property; under every
  other name it sets the own property.
\<close>

definition obj_set :: "(string \<times> 'a) list \<Rightarrow> string \<Rightarrow> 'a \<Rightarrow> (string \<times> 'a) list" where
  "obj_set kvs k v =
     (if k = ''__proto__'' then kvs
      else if k \<in> set (map fst kvs) then Map_set kvs k v
      else (case array_index k of Some n \<Rightarrow> obj_insert_index n k v kvs | None \<Rightarrow> kvs @ [(k, v)]))"

section \<open>The validator\<close>

text \<open>
  The three maps of the class \<^verbatim>\<open>FormValidator\<close>, and beside them a journal of what a run
  does to the outside: the warnings written to the console and the predicates invoked,
  in order. A method takes the state and returns the state after it, with its result or
  the exception it throws.
\<close>

datatype event = Warned string | Invoked string jsany jsarg

record validator =
  validationRules :: "(string \<times> predicate) list"
  errorMessages :: "(string \<times> string) list"
  fieldConfigs :: "(string \<times> field_config) list"
  journal :: "event list"

definition addValidationRule :: "validator \<Rightarrow> string \<Rightarrow> predicate \<Rightarrow> string \<Rightarrow> validator" where
  "addValidationRule s name validator msg =
     s\<lparr>validationRules := Map_set (validationRules s) name validator,
       errorMessages := Map_set (errorMessages s) name msg\<rparr>"

definition default_rules :: "host \<Rightarrow> (string \<times> predicate \<times> string) list" where
  "default_rules h =
     [(''required'', required h, ''This field is required''),
      (''minLength'', minLength h, ''Must be at least {length} characters long''),
      (''maxLength'', maxLength h, ''Must be no more than {length} characters long''),
      (''email'', email h, ''Please enter a valid email address''),
      (''phone'', phone h, ''Please enter a valid phone number''),
      (''number'', number h, ''Please enter a valid number''),
      (''min'', min_rule h, ''Value must be at least {value}''),
      (''max'', max_rule h, ''Value must be no more than {value}''),
      (''pattern'', pattern h, ''Please match the required format''),
      (''password'', password h,
       ''Password must contain uppercase, lowercase, numbers, special characters, and be at least 8 characters long''),
      (''confirmPassword'', confirmPassword h, ''Passwords do not match''),
      (''age'', age h, ''Please enter a valid age between {min} and {max}''),
      (''date'', date h, ''Please enter a valid date''),
      (''url'', url h, ''Please enter a valid URL'')]"

definition initializeDefaultRules :: "host \<Rightarrow> validator \<Rightarrow> validator" where
  "initializeDefaultRules h s =
     foldl (\<lambda>s' (name, validator, msg). addValidationRule s' name validator msg) s (default_rules h)"

text \<open>The constructor: three empty maps, then the default rules.\<close>

definition FormValidator :: "host \<Rightarrow> validator" where
  "FormValidator h =
     initializeDefaultRules h
       \<lparr>validationRules = [], errorMessages = [], fieldConfigs = [], journal = []\<rparr>"

definition configureField :: "validator \<Rightarrow> string \<Rightarrow> field_config \<Rightarrow> validator" where
  "configureField s fieldName config = s\<lparr>fieldConfigs := Map_set (fieldConfigs s) fieldName config\<rparr>"

text \<open>\<open>configs\<close> is \<^verbatim>\<open>Object.entries(configs)\<close>.\<close>

definition configureFields :: "validator \<Rightarrow> (string \<times> field_config) list \<Rightarrow> validator" where
  "configureFields s configs = foldl (\<lambda>s' (fieldName, config). configureField s' fieldName config) s configs"

definition resetField :: "validator \<Rightarrow> string \<Rightarrow> validator" where
  "resetField s fieldName = s\<lparr>fieldConfigs := Map_delete (fieldConfigs s) fieldName\<rparr>"

definition clearAll :: "validator \<Rightarrow> validator" where
  "clearAll s = s\<lparr>fieldConfigs := []\<rparr>"

definition getAvailableRules :: "validator \<Rightarrow> validator \<times> string list" where
  "getAvailableRules s = (s, map fst (validationRules s))"

section \<open>Message formatting\<close>

text \<open>
  \<^verbatim>\<open>message.replace(new RegExp(`\\{${key}\\}`, 'g'), value)\<close>. When the key is made of
  letters, digits and underscores, the pattern matches the text \<^verbatim>\<open>{key}\<close> and nothing
  else, and the model computes the replacement; the pattern of any other key is the
  host's to read. The replacement is a replacement pattern: \<^verbatim>\<open>$$\<close> stands for a dollar sign,
  \<^verbatim>\<open>$&\<close> for the matched text, \<^verbatim>\<open>$`\<close> for the text before the match and \<^verbatim>\<open>$'\<close> for the text
  after it; a dollar sign before anything else stands for itself, the pattern having no
  groups.
\<close>

definition plain_char :: "char \<Rightarrow> bool" where
  "plain_char c = (is_upper c \<or> is_lower c \<or> is_digit c \<or> c = CHR ''_'')"

definition placeholder :: "string \<Rightarrow> string" where
  "placeholder key = CHR ''{'' # key @ ''}''"

fun GetSubstitution :: "string \<Rightarrow> string \<Rightarrow> string \<Rightarrow> string \<Rightarrow> string" where
  "GetSubstitution matched bef aft [] = []"
| "GetSubstitution matched bef aft [c] = [c]"
| "GetSubstitution matched bef aft (c # d # cs) =
     (if c = CHR ''$'' then
        (if d = CHR ''$'' then CHR ''$'' # GetSubstitution matched bef aft cs
         else if d = CHR ''&'' then matched @ GetSubstitution matched bef aft cs
         else if d = CHR 0x60 then bef @ GetSubstitution matched bef aft cs
         else if d = CHR 0x27 then aft @ GetSubstitution matched bef aft cs
         else CHR ''$'' # GetSubstitution matched bef aft (d # cs))
      else c # GetSubstitution matched bef aft (d # cs))"

text \<open>
  The scan of a global replace: \<open>bef\<close> is the text already passed, the last argument
  what is still to be read. A match is replaced and the scan goes on behind it.
\<close>

function replace_scan :: "string \<Rightarrow> string \<Rightarrow> string \<Rightarrow> string \<Rightarrow> string" where
  "replace_scan key repl bef [] = []"
| "replace_scan key repl bef (c # cs) =
     (if prefix (placeholder key) (c # cs)
      then GetSubstitution (placeholder key) bef (drop (Suc (length key)) cs) repl
             @ replace_scan key repl (bef @ placeholder key) (drop (Suc (length key)) cs)
      else c # replace_scan key repl (bef @ [c]) cs)"
  by pat_completeness auto
termination
  by (relation "measure (\<lambda>(key, repl, bef, s). length s)") auto

definition placeholder_source :: "string \<Rightarrow> string" where
  "placeholder_source key = [CHR 0x5C, CHR ''{''] @ key @ [CHR 0x5C, CHR ''}'']"

definition replace_placeholder :: "host \<Rightarrow> string \<Rightarrow> string \<Rightarrow> string \<Rightarrow> error + string" where
  "replace_placeholder h key repl msg =
     (if list_all plain_char key then Inr (replace_scan key repl [] msg)
      else RegExp_replace h (placeholder_source key) msg repl)"

text \<open>
  \<^verbatim>\<open>Object.entries(params).forEach(...)\<close>: the entries of the object in the order of
  enumeration, each replacement applied to the message as the entries before it left it.
\<close>

fun format_entries :: "host \<Rightarrow> (string \<times> jsval) list \<Rightarrow> string \<Rightarrow> error + string" where
  "format_entries h [] msg = Inr msg"
| "format_entries h ((key, v) # kvs) msg =
     (if v \<noteq> JNull \<and> v \<noteq> JUndefined \<and> v \<noteq> JStr []
      then bind (replace_placeholder h key (text_form h v) msg) (format_entries h kvs)
      else format_entries h kvs msg)"

fun typeof :: "jsarg \<Rightarrow> string" where
  "typeof (Obj kvs) = ''object''"
| "typeof (Prim JUndefined) = ''undefined''"
| "typeof (Prim JNull) = ''object''"
| "typeof (Prim (JBool b)) = ''boolean''"
| "typeof (Prim (JNum n)) = ''number''"
| "typeof (Prim (JStr s)) = ''string''"

fun entries :: "jsarg \<Rightarrow> (string \<times> jsval) list" where
  "entries (Obj kvs) = kvs"
| "entries (Prim v) = []"

text \<open>\<^verbatim>\<open>this.errorMessages.get(ruleName) || 'Invalid value'\<close>\<close>

definition template_of :: "validator \<Rightarrow> string \<Rightarrow> string" where
  "template_of s ruleName =
     (case Map_get (errorMessages s) ruleName of
        None \<Rightarrow> ''Invalid value''
      | Some m \<Rightarrow> if m = [] then ''Invalid value'' else m)"

definition formatErrorMessage :: "host \<Rightarrow> validator \<Rightarrow> string \<Rightarrow> jsarg \<Rightarrow> validator \<times> (error + string)" where
  "formatErrorMessage h s ruleName ps =
     (let msg = template_of s ruleName
      in if falsy_arg ps \<or> typeof ps \<noteq> ''object'' then (s, Inr msg)
         else (s, format_entries h (entries ps) msg))"

section \<open>Validation\<close>

fun ruleName_of :: "rule_ref \<Rightarrow> string" where
  "ruleName_of (Bare name) = name"
| "ruleName_of (Ref name ps m) = name"

text \<open>\<^verbatim>\<open>typeof rule === 'string' ? {} : rule.params || {}\<close>\<close>

fun ruleParams_of :: "rule_ref \<Rightarrow> jsarg" where
  "ruleParams_of (Bare name) = Obj []"
| "ruleParams_of (Ref name ps m) = (if falsy_arg ps then Obj [] else ps)"

fun customMessage_of :: "rule_ref \<Rightarrow> string option" where
  "customMessage_of (Bare name) = None"
| "customMessage_of (Ref name ps m) = m"

definition not_found_warning :: "string \<Rightarrow> string" where
  "not_found_warning ruleName = ''Validation rule '' @ [CHR 0x22] @ ruleName @ [CHR 0x22] @ '' not found''"

definition log_event :: "validator \<Rightarrow> event \<Rightarrow> validator" where
  "log_event s e = s\<lparr>journal := journal s @ [e]\<rparr>"

text \<open>
  \<^verbatim>\<open>customMessage || this.formatErrorMessage(ruleName, ruleParams)\<close>: a message of the
  reference that is missing or the empty string gives way to the formatted template.
\<close>

definition failure_message ::
  "host \<Rightarrow> validator \<Rightarrow> string \<Rightarrow> jsarg \<Rightarrow> string option \<Rightarrow> validator \<times> (error + string)" where
  "failure_message h s ruleName ruleParams customMessage =
     (case customMessage of
        None \<Rightarrow> formatErrorMessage h s ruleName ruleParams
      | Some m \<Rightarrow> if m = [] then formatErrorMessage h s ruleName ruleParams else (s, Inr m))"

text \<open>
  The body of \<^verbatim>\<open>config.rules.forEach(rule => ...)\<close>, with the array \<^verbatim>\<open>errors\<close> as far as it
  has been filled. An exception ends the loop and the method.
\<close>

fun run_rules ::
  "host \<Rightarrow> validator \<Rightarrow> jsany \<Rightarrow> formData \<Rightarrow> rule_ref list \<Rightarrow> RuleFailure list
     \<Rightarrow> validator \<times> (error + RuleFailure list)" where
  "run_rules h s v fd [] errs = (s, Inr errs)"
| "run_rules h s v fd (r # rs) errs =
     (let ruleName = ruleName_of r;
          ruleParams = ruleParams_of r;
          customMessage = customMessage_of r
      in case Map_get (validationRules s) ruleName of
           None \<Rightarrow> run_rules h (log_event s (Warned (not_found_warning ruleName))) v fd rs errs
         | Some validator \<Rightarrow>
             (let s1 = log_event s (Invoked ruleName v ruleParams)
              in case validator v ruleParams fd of
                   Inl e \<Rightarrow> (s1, Inl e)
                 | Inr valid \<Rightarrow>
                     if falsy_arg valid then
                       (case failure_message h s1 ruleName ruleParams customMessage of
                          (s2, Inl e) \<Rightarrow> (s2, Inl e)
                        | (s2, Inr m) \<Rightarrow>
                            run_rules h s2 v fd rs
                              (errs @ [\<lparr>rule = ruleName, message = m, params = ruleParams\<rparr>]))
                     else run_rules h s1 v fd rs errs))"

text \<open>
  \<^verbatim>\<open>!config\<close>, and \<^verbatim>\<open>config.rules\<close>: a primitive value that is not false has no property
  \<^verbatim>\<open>rules\<close>.
\<close>

fun falsy_config :: "field_config \<Rightarrow> bool" where
  "falsy_config (Config r) = False"
| "falsy_config (ConfigPrim v) = falsy v"

fun rules_of :: "field_config \<Rightarrow> rules_value" where
  "rules_of (Config r) = r"
| "rules_of (ConfigPrim v) = NotAList (Prim JUndefined)"

text \<open>\<open>formData\<close> is \<open>None\<close> when the caller leaves the argument out: the default is \<^verbatim>\<open>{}\<close>.\<close>

definition formData_or_default :: "formData option \<Rightarrow> formData" where
  "formData_or_default formData = (case formData of None \<Rightarrow> [] | Some fd \<Rightarrow> fd)"

definition validateField ::
  "host \<Rightarrow> validator \<Rightarrow> string \<Rightarrow> jsany \<Rightarrow> formData option
     \<Rightarrow> validator \<times> (error + FieldValidationResult)" where
  "validateField h s fieldName v formData =
     (case Map_get (fieldConfigs s) fieldName of
        None \<Rightarrow> (s, Inr \<lparr>isValid = True, errors = []\<rparr>)
      | Some config \<Rightarrow>
          if falsy_config config then (s, Inr \<lparr>isValid = True, errors = []\<rparr>)
          else (case rules_of config of
                  NotAList x \<Rightarrow> (s, Inl TypeError)
                | RuleList rs \<Rightarrow>
                    (case run_rules h s v (formData_or_default formData) rs [] of
                       (s', Inl e) \<Rightarrow> (s', Inl e)
                     | (s', Inr errs) \<Rightarrow> (s', Inr \<lparr>isValid = (length errs = 0), errors = errs\<rparr>))))"

definition getAllErrors :: "(string \<times> FieldValidationResult) list \<Rightarrow> FieldError list" where
  "getAllErrors results =
     concat (map (\<lambda>(fieldName, result).
                    if \<not> isValid result
                    then map (\<lambda>e. \<lparr>rule = rule e, message = message e, params = params e,
                                    field = fieldName\<rparr>) (errors result)
                    else []) results)"

text \<open>
  \<^verbatim>\<open>this.fieldConfigs.forEach((config, fieldName) => ...)\<close> over the entries still to visit,
  with the object \<^verbatim>\<open>results\<close> and the flag \<^verbatim>\<open>isFormValid\<close> as they stand.
\<close>

fun validate_fields ::
  "host \<Rightarrow> validator \<Rightarrow> formData \<Rightarrow> (string \<times> field_config) list
     \<Rightarrow> (string \<times> FieldValidationResult) list \<Rightarrow> bool
     \<Rightarrow> validator \<times> (error + (string \<times> FieldValidationResult) list \<times> bool)" where
  "validate_fields h s fd [] results isFormValid = (s, Inr (results, isFormValid))"
| "validate_fields h s fd ((fieldName, config) # rest) results isFormValid =
     (let fieldValue = formData_get fd fieldName
      in case validateField h s fieldName fieldValue (Some fd) of
           (s', Inl e) \<Rightarrow> (s', Inl e)
         | (s', Inr fieldResult) \<Rightarrow>
             validate_fields h s' fd rest (obj_set results fieldName fieldResult)
               (if \<not> isValid fieldResult then False else isFormValid))"

definition validateForm ::
  "host \<Rightarrow> validator \<Rightarrow> formData \<Rightarrow> validator \<times> (error + FormValidationResult)" where
  "validateForm h s fd =
     (case validate_fields h s fd (fieldConfigs s) [] True of
        (s', Inl e) \<Rightarrow> (s', Inl e)
      | (s', Inr (results, isFormValid)) \<Rightarrow>
          (s', Inr \<lparr>form_isValid = isFormValid, form_fields = results,
                    form_errors = getAllErrors results\<rparr>))"

section \<open>Notions used in the statements\<close>

text \<open>
  The validator's own state: the rule registry (predicates and message templates) and
  the field configuration store. The journal is not part of it.
\<close>

definition store_of ::
  "validator \<Rightarrow> (string \<times> predicate) list \<times> (string \<times> string) list \<times> (string \<times> field_config) list" where
  "store_of s = (validationRules s, errorMessages s, fieldConfigs s)"

definition same_registry :: "validator \<Rightarrow> validator \<Rightarrow> bool" where
  "same_registry s t = (validationRules s = validationRules t \<and> errorMessages s = errorMessages t)"

text \<open>
  The host of the worked examples knows no number, date or URL, prints a built-in
  function as \<^verbatim>\<open>function name() { [native code] }\<close>, and refuses every pattern it is asked
  to read. The examples use strings, booleans and small integers, and parameter names
  made of letters; the one pattern they hand to the host is \<^verbatim>\<open>\{(\}\<close>, which no engine
  accepts as a regular expression.
\<close>

definition example_host :: host where
  "example_host =
     \<lparr>StringToNumber = (\<lambda>s. NaN), NumberToString = (\<lambda>x. []),
      FunctionToString = (\<lambda>n. ''function '' @ (if n = ''constructor'' then ''Object'' else n)
                                  @ ''() { [native code] }''),
      parseFloat_str = (\<lambda>s. NaN), parseInt_str = (\<lambda>s. NaN),
      RegExp_test = (\<lambda>src s. Inl SyntaxError),
      RegExp_replace = (\<lambda>src s repl. Inl SyntaxError), Date_valid = (\<lambda>v. False),
      URL_parses = (\<lambda>s. False)\<rparr>"

text \<open>
  A reference is registered when its name has a predicate in the registry; its outcome
  on a value is what that predicate gives on the value and the reference's parameters.
\<close>

definition registered :: "validator \<Rightarrow> rule_ref \<Rightarrow> bool" where
  "registered s r = (Map_get (validationRules s) (ruleName_of r) \<noteq> None)"

definition outcome :: "validator \<Rightarrow> jsany \<Rightarrow> formData \<Rightarrow> rule_ref \<Rightarrow> (error + jsarg) option" where
  "outcome s v fd r =
     (case Map_get (validationRules s) (ruleName_of r) of
        None \<Rightarrow> None
      | Some p \<Rightarrow> Some (p v (ruleParams_of r) fd))"

text \<open>
  The predicate of a reference threw; it returned the boolean \<^verbatim>\<open>false\<close>; it returned a value
  that \<^verbatim>\<open>!isValid\<close> reads as a failure (\<^verbatim>\<open>false\<close>, \<^verbatim>\<open>undefined\<close>, \<^verbatim>\<open>null\<close>, \<^verbatim>\<open>0\<close>, \<^verbatim>\<open>NaN\<close> or
  the empty string); it returned a boolean.
\<close>

definition threw :: "validator \<Rightarrow> jsany \<Rightarrow> formData \<Rightarrow> rule_ref \<Rightarrow> bool" where
  "threw s v fd r = (case outcome s v fd r of Some (Inl e) \<Rightarrow> True | _ \<Rightarrow> False)"

definition returned_false :: "validator \<Rightarrow> jsany \<Rightarrow> formData \<Rightarrow> rule_ref \<Rightarrow> bool" where
  "returned_false s v fd r = (outcome s v fd r = Some (Inr (js_bool False)))"

definition returned_falsy :: "validator \<Rightarrow> jsany \<Rightarrow> formData \<Rightarrow> rule_ref \<Rightarrow> bool" where
  "returned_falsy s v fd r = (case outcome s v fd r of Some (Inr x) \<Rightarrow> falsy_arg x | _ \<Rightarrow> False)"

definition returned_boolean :: "validator \<Rightarrow> jsany \<Rightarrow> formData \<Rightarrow> rule_ref \<Rightarrow> bool" where
  "returned_boolean s v fd r =
     (case outcome s v fd r of Some (Inr (Prim (JBool b))) \<Rightarrow> True | _ \<Rightarrow> False)"

text \<open>
  The end of \<^verbatim>\<open>validateField\<close> after the loop: \<^verbatim>\<open>return {isValid: errors.length === 0, errors}\<close>
  when the loop has come to its end, the exception when it has not.
\<close>

definition returning ::
  "validator \<times> (error + RuleFailure list) \<Rightarrow> validator \<times> (error + FieldValidationResult)" where
  "returning out =
     (case out of
        (s, Inl e) \<Rightarrow> (s, Inl e)
      | (s, Inr errs) \<Rightarrow> (s, Inr \<lparr>isValid = (length errs = 0), errors = errs\<rparr>))"

text \<open>The journal entries of a reference: its predicate invoked, or the warning that it is unknown.\<close>

definition invocation :: "jsany \<Rightarrow> rule_ref \<Rightarrow> event" where
  "invocation v r = Invoked (ruleName_of r) v (ruleParams_of r)"




text \<open>
  The built-in rules other than \<^verbatim>\<open>required\<close>, by the names under which
  \<^verbatim>\<open>initializeDefaultRules\<close> registers them.
\<close>

definition optional_rule_names :: "string list" where
  "optional_rule_names =
     [''minLength'', ''maxLength'', ''email'', ''phone'', ''number'', ''min'', ''max'', ''pattern'',
      ''password'', ''confirmPassword'', ''age'', ''date'', ''url'']"

section \<open>The formatter as the specification words it\<close>

text \<open>
  Replacing every occurrence of a text by another: the text is read from left to right,
  and what has been put in place of an occurrence is not read again.
\<close>

function replace_every :: "string \<Rightarrow> string \<Rightarrow> string \<Rightarrow> string" where
  "replace_every pat rep [] = []"
| "replace_every pat rep (c # cs) =
     (if pat \<noteq> [] \<and> prefix pat (c # cs) then rep @ replace_every pat rep (drop (length pat - 1) cs)
      else c # replace_every pat rep cs)"
  by pat_completeness auto
termination
  by (relation "measure (\<lambda>(pat, rep, s). length s)") auto

text \<open>
  A value takes part in the formatting when it is not \<^verbatim>\<open>null\<close>, not \<^verbatim>\<open>undefined\<close> and not
  the empty string. The formatter goes through the parameters in their order and, for
  each value that takes part, replaces every occurrence of \<^verbatim>\<open>{key}\<close> in the message by the
  text of the value.
\<close>

definition substitutable :: "jsval \<Rightarrow> bool" where
  "substitutable v = (v \<noteq> JNull \<and> v \<noteq> JUndefined \<and> v \<noteq> JStr [])"

definition substitute_all :: "host \<Rightarrow> (string \<times> jsval) list \<Rightarrow> string \<Rightarrow> string" where
  "substitute_all h kvs template =
     foldl (\<lambda>m (k, v). if substitutable v then replace_every (placeholder k) (text_form h v) m else m)
       template kvs"

text \<open>
  A parameter name made of letters, digits and underscores; a text without a dollar sign.
\<close>

definition plain_key :: "string \<Rightarrow> bool" where
  "plain_key k = list_all plain_char k"

definition dollar_free :: "string \<Rightarrow> bool" where
  "dollar_free t = (CHR ''$'' \<notin> set t)"

section \<open>Validators used in the worked examples\<close>

text \<open>
  Four predicates a caller could register: one that throws, one that accepts every
  value, one that rejects every value, and one whose body returns nothing, so that its
  result is \<^verbatim>\<open>undefined\<close>.
\<close>

definition throwing_rule :: predicate where
  "throwing_rule v ps fd = Inl (Thrown ''boom'')"

definition accept_all :: predicate where
  "accept_all v ps fd = Inr (js_bool True)"

definition reject_all :: predicate where
  "reject_all v ps fd = Inr (js_bool False)"

definition forgetful :: predicate where
  "forgetful v ps fd = Inr (Prim JUndefined)"

text \<open>
  A field whose second rule throws; a telephone field; a field with three rules, two of
  which the value \<^verbatim>\<open>'ab'\<close> fails; two fields with mistyped rule names; a field checked by
  the predicate that returns nothing; and a field whose first rule has a parameter named
  \<^verbatim>\<open>(\<close>.
\<close>

definition boom_state :: validator where
  "boom_state =
     configureField (addValidationRule (FormValidator example_host) ''boom'' throwing_rule ''Never shown'')
       ''code'' (Config (RuleList [Bare ''required'', Bare ''boom'', Bare ''email'']))"

definition tel_state :: validator where
  "tel_state =
     configureField (FormValidator example_host) ''tel'' (Config (RuleList [Bare ''phone'', Bare ''required'']))"

definition username_rules :: "rule_ref list" where
  "username_rules =
     [Bare ''required'', Ref ''minLength'' (Obj [(''length'', JNum (Fin 5))]) None, Bare ''email'']"

definition username_state :: validator where
  "username_state = configureField (FormValidator example_host) ''username'' (Config (RuleList username_rules))"


definition forgetful_state :: validator where
  "forgetful_state =
     configureField (addValidationRule (FormValidator example_host) ''checked'' forgetful ''Not checked'')
       ''code'' (Config (RuleList [Bare ''checked'']))"

definition paren_state :: validator where
  "paren_state =
     configureField (FormValidator example_host) ''name''
       (Config (RuleList [Ref ''required'' (Obj [(''('', JNum (Fin 1))]) None, Bare ''email'']))"

text \<open>
  The rule \<^verbatim>\<open>email\<close> registered a second time, with a predicate that accepts everything
  after one that rejects everything, and the other way round.
\<close>

definition lenient_state :: validator where
  "lenient_state =
     addValidationRule (addValidationRule (FormValidator example_host) ''email'' reject_all ''first'')
       ''email'' accept_all ''second''"

definition severe_state :: validator where
  "severe_state =
     addValidationRule (addValidationRule (FormValidator example_host) ''email'' accept_all ''first'')
       ''email'' reject_all ''second''"

section \<open>Helper lemmas\<close>

lemma Map_get_Map_set: "Map_get (Map_set m k v) k' = (if k' = k then Some v else Map_get m k')"
  by (induction m) (auto simp: Map_get_def)

lemma Map_set_twice: "Map_set (Map_set m k v) k w = Map_set m k w"
  by (induction m) auto

lemma same_registry_log: "same_registry s t \<Longrightarrow> same_registry (log_event s e) (log_event t e)"
  by (simp add: same_registry_def log_event_def)

lemma formatErrorMessage_eq: "formatErrorMessage h s n ps = (s, snd (formatErrorMessage h s n ps))"
  by (simp add: formatErrorMessage_def Let_def)

lemma formatErrorMessage_snd:
  "same_registry s t \<Longrightarrow> snd (formatErrorMessage h s n ps) = snd (formatErrorMessage h t n ps)"
  by (simp add: formatErrorMessage_def Let_def template_of_def same_registry_def)

lemma failure_message_eq: "failure_message h s n ps c = (s, snd (failure_message h s n ps c))"
  unfolding failure_message_def
  by (cases c) (simp_all add: formatErrorMessage_eq[symmetric])

lemma failure_message_snd:
  "same_registry s t \<Longrightarrow> snd (failure_message h s n ps c) = snd (failure_message h t n ps c)"
  unfolding failure_message_def
  by (cases c) (simp_all add: formatErrorMessage_snd)

lemma log_event_append:
  "(log_event s e)\<lparr>journal := journal (log_event s e) @ ev\<rparr> = s\<lparr>journal := journal s @ e # ev\<rparr>"
  by (simp add: log_event_def)

lemma log_event_alt: "log_event s e = s\<lparr>journal := journal s @ [e]\<rparr>"
  by (simp add: log_event_def)

text \<open>One step of the loop, as an equation for each of the ways it can go.\<close>

lemma run_rules_unknown:
  "Map_get (validationRules s) (ruleName_of r) = None \<Longrightarrow>
   run_rules h s v fd (r # rs) errs =
     run_rules h (log_event s (Warned (not_found_warning (ruleName_of r)))) v fd rs errs"
  by (simp add: Let_def)

lemma run_rules_throw:
  "Map_get (validationRules s) (ruleName_of r) = Some p \<Longrightarrow> p v (ruleParams_of r) fd = Inl e \<Longrightarrow>
   run_rules h s v fd (r # rs) errs = (log_event s (Invoked (ruleName_of r) v (ruleParams_of r)), Inl e)"
  by (simp add: Let_def)

lemma run_rules_pass:
  "Map_get (validationRules s) (ruleName_of r) = Some p \<Longrightarrow> p v (ruleParams_of r) fd = Inr x \<Longrightarrow>
   \<not> falsy_arg x \<Longrightarrow>
   run_rules h s v fd (r # rs) errs =
     run_rules h (log_event s (Invoked (ruleName_of r) v (ruleParams_of r))) v fd rs errs"
  by (simp add: Let_def)

lemma run_rules_fail_throw:
  "Map_get (validationRules s) (ruleName_of r) = Some p \<Longrightarrow> p v (ruleParams_of r) fd = Inr x \<Longrightarrow>
   falsy_arg x \<Longrightarrow>
   snd (failure_message h (log_event s (Invoked (ruleName_of r) v (ruleParams_of r)))
          (ruleName_of r) (ruleParams_of r) (customMessage_of r)) = Inl e \<Longrightarrow>
   run_rules h s v fd (r # rs) errs = (log_event s (Invoked (ruleName_of r) v (ruleParams_of r)), Inl e)"
  by (subst run_rules.simps, subst failure_message_eq) (simp add: Let_def)

lemma run_rules_fail:
  "Map_get (validationRules s) (ruleName_of r) = Some p \<Longrightarrow> p v (ruleParams_of r) fd = Inr x \<Longrightarrow>
   falsy_arg x \<Longrightarrow>
   snd (failure_message h (log_event s (Invoked (ruleName_of r) v (ruleParams_of r)))
          (ruleName_of r) (ruleParams_of r) (customMessage_of r)) = Inr m \<Longrightarrow>
   run_rules h s v fd (r # rs) errs =
     run_rules h (log_event s (Invoked (ruleName_of r) v (ruleParams_of r))) v fd rs
       (errs @ [\<lparr>rule = ruleName_of r, message = m, params = ruleParams_of r\<rparr>])"
  by (subst run_rules.simps, subst failure_message_eq) (simp add: Let_def)

declare run_rules.simps(2) [simp del]

lemma run_rules_rel:
  "same_registry s t \<Longrightarrow>
   \<exists>ev. fst (run_rules h s v fd rs errs) = s\<lparr>journal := journal s @ ev\<rparr>
      \<and> fst (run_rules h t v fd rs errs) = t\<lparr>journal := journal t @ ev\<rparr>
      \<and> snd (run_rules h s v fd rs errs) = snd (run_rules h t v fd rs errs)"
proof (induction rs arbitrary: s t errs)
  case Nil
  show ?case by (rule exI[of _ "[]"]) simp
next
  case (Cons r rs)
  let ?n = "ruleName_of r" and ?p = "ruleParams_of r" and ?c = "customMessage_of r"
  have reg: "validationRules t = validationRules s"
    using Cons.prems by (simp add: same_registry_def)
  have step: "\<exists>ev. fst (run_rules h (log_event s e) v fd rs errs') = s\<lparr>journal := journal s @ e # ev\<rparr>
      \<and> fst (run_rules h (log_event t e) v fd rs errs') = t\<lparr>journal := journal t @ e # ev\<rparr>
      \<and> snd (run_rules h (log_event s e) v fd rs errs') = snd (run_rules h (log_event t e) v fd rs errs')"
    for e errs'
    using Cons.IH[OF same_registry_log[OF Cons.prems, of e], of errs']
    by (simp add: log_event_append)
  show ?case
  proof (cases "Map_get (validationRules s) ?n")
    case None
    show ?thesis
      using step[of "Warned (not_found_warning ?n)" errs]
      unfolding run_rules_unknown[OF None] run_rules_unknown[OF None[folded reg]]
      by blast
  next
    case (Some p)
    let ?e = "Invoked ?n v ?p"
    have Some': "Map_get (validationRules t) ?n = Some p"
      using Some reg by simp
    show ?thesis
    proof (cases "p v ?p fd")
      case (Inl e)
      show ?thesis
        by (rule exI[of _ "[?e]"])
           (simp add: run_rules_throw[OF Some Inl] run_rules_throw[OF Some' Inl] log_event_alt)
    next
      case (Inr x)
      note px = Inr
      show ?thesis
      proof (cases "falsy_arg x")
        case False
        then have ok: "\<not> falsy_arg x" .
        show ?thesis
          using step[of ?e errs]
          unfolding run_rules_pass[OF Some px ok] run_rules_pass[OF Some' px ok]
          by blast
      next
        case True
        then have ko: "falsy_arg x" .
        have fm: "snd (failure_message h (log_event t ?e) ?n ?p ?c) = snd (failure_message h (log_event s ?e) ?n ?p ?c)"
          using failure_message_snd[OF same_registry_log[OF Cons.prems, of ?e]] by simp
        show ?thesis
        proof (cases "snd (failure_message h (log_event s ?e) ?n ?p ?c)")
          case (Inl e)
          have Inl': "snd (failure_message h (log_event t ?e) ?n ?p ?c) = Inl e"
            using fm Inl by simp
          show ?thesis
            by (rule exI[of _ "[?e]"])
               (simp add: run_rules_fail_throw[OF Some px ko Inl] run_rules_fail_throw[OF Some' px ko Inl']
                          log_event_alt)
        next
          case (Inr m)
          have Inr': "snd (failure_message h (log_event t ?e) ?n ?p ?c) = Inr m"
            using fm Inr by simp
          show ?thesis
            using step[of ?e "errs @ [\<lparr>rule = ?n, message = m, params = ?p\<rparr>]"]
            unfolding run_rules_fail[OF Some px ko Inr] run_rules_fail[OF Some' px ko Inr']
            by blast
        qed
      qed
    qed
  qed
qed

lemma run_rules_frame:
  "\<exists>ev. fst (run_rules h s v fd rs errs) = s\<lparr>journal := journal s @ ev\<rparr>"
  using run_rules_rel[of s s h v fd rs errs] by (auto simp: same_registry_def)

lemma store_of_journal: "store_of (s\<lparr>journal := j\<rparr>) = store_of s"
  by (simp add: store_of_def)

lemma store_of_registry: "store_of s = store_of t \<Longrightarrow> same_registry s t"
  by (simp add: store_of_def same_registry_def)

lemma validateField_rel:
  assumes "store_of s = store_of t"
  shows "\<exists>ev. fst (validateField h s f v fd) = s\<lparr>journal := journal s @ ev\<rparr>
      \<and> fst (validateField h t f v fd) = t\<lparr>journal := journal t @ ev\<rparr>
      \<and> snd (validateField h s f v fd) = snd (validateField h t f v fd)"
proof -
  have cfg: "fieldConfigs t = fieldConfigs s"
    using assms by (simp add: store_of_def)
  have triv: "\<exists>ev. s = s\<lparr>journal := journal s @ ev\<rparr> \<and> t = t\<lparr>journal := journal t @ ev\<rparr>"
    by (rule exI[of _ "[]"]) simp
  show ?thesis
  proof (cases "Map_get (fieldConfigs s) f")
    case None
    then show ?thesis using triv by (simp add: validateField_def cfg)
  next
    case (Some config)
    show ?thesis
    proof (cases "falsy_config config")
      case True
      then show ?thesis using triv Some by (simp add: validateField_def cfg)
    next
      case False
      show ?thesis
      proof (cases "rules_of config")
        case (NotAList x)
        then show ?thesis using triv Some False by (simp add: validateField_def cfg)
      next
        case (RuleList rs)
        let ?fd = "formData_or_default fd"
        obtain ev where ev:
          "fst (run_rules h s v ?fd rs []) = s\<lparr>journal := journal s @ ev\<rparr>"
          "fst (run_rules h t v ?fd rs []) = t\<lparr>journal := journal t @ ev\<rparr>"
          "snd (run_rules h s v ?fd rs []) = snd (run_rules h t v ?fd rs [])"
          using run_rules_rel[OF store_of_registry[OF assms], of h v ?fd rs "[]"] by blast
        have vs: "validateField h s f v fd =
                    (fst (run_rules h s v ?fd rs []),
                     case snd (run_rules h s v ?fd rs []) of Inl e \<Rightarrow> Inl e
                     | Inr errs \<Rightarrow> Inr \<lparr>isValid = (length errs = 0), errors = errs\<rparr>)"
          using Some False RuleList
          by (simp add: validateField_def split: prod.splits sum.splits)
        have vt: "validateField h t f v fd =
                    (fst (run_rules h t v ?fd rs []),
                     case snd (run_rules h t v ?fd rs []) of Inl e \<Rightarrow> Inl e
                     | Inr errs \<Rightarrow> Inr \<lparr>isValid = (length errs = 0), errors = errs\<rparr>)"
          using Some False RuleList
          by (simp add: validateField_def cfg split: prod.splits sum.splits)
        show ?thesis
          unfolding vs vt using ev by (intro exI[of _ ev]) simp
      qed
    qed
  qed
qed

lemma validate_fields_rel:
  "store_of s = store_of t \<Longrightarrow>
   \<exists>ev. fst (validate_fields h s fd cs res ok) = s\<lparr>journal := journal s @ ev\<rparr>
      \<and> fst (validate_fields h t fd cs res ok) = t\<lparr>journal := journal t @ ev\<rparr>
      \<and> snd (validate_fields h s fd cs res ok) = snd (validate_fields h t fd cs res ok)"
proof (induction cs arbitrary: s t res ok)
  case Nil
  show ?case by (rule exI[of _ "[]"]) simp
next
  case (Cons c cs)
  obtain f config where c: "c = (f, config)" by (cases c)
  let ?v = "formData_get fd f"
  obtain ev where ev:
    "fst (validateField h s f ?v (Some fd)) = s\<lparr>journal := journal s @ ev\<rparr>"
    "fst (validateField h t f ?v (Some fd)) = t\<lparr>journal := journal t @ ev\<rparr>"
    "snd (validateField h s f ?v (Some fd)) = snd (validateField h t f ?v (Some fd))"
    using validateField_rel[OF Cons.prems, of h f ?v "Some fd"] by blast
  let ?s1 = "s\<lparr>journal := journal s @ ev\<rparr>" and ?t1 = "t\<lparr>journal := journal t @ ev\<rparr>"
  show ?case
  proof (cases "snd (validateField h t f ?v (Some fd))")
    case (Inl e)
    have "validateField h s f ?v (Some fd) = (?s1, Inl e)" "validateField h t f ?v (Some fd) = (?t1, Inl e)"
      using ev Inl by (simp_all add: prod_eq_iff)
    then show ?thesis
      unfolding c by (intro exI[of _ ev]) (simp add: Let_def)
  next
    case (Inr r)
    have vf: "validateField h s f ?v (Some fd) = (?s1, Inr r)" "validateField h t f ?v (Some fd) = (?t1, Inr r)"
      using ev Inr by (simp_all add: prod_eq_iff)
    have st: "store_of ?s1 = store_of ?t1"
      using Cons.prems by (simp add: store_of_journal)
    let ?res = "obj_set res f r" and ?ok = "if \<not> isValid r then False else ok"
    obtain ev' where ev':
      "fst (validate_fields h ?s1 fd cs ?res ?ok) = ?s1\<lparr>journal := journal ?s1 @ ev'\<rparr>"
      "fst (validate_fields h ?t1 fd cs ?res ?ok) = ?t1\<lparr>journal := journal ?t1 @ ev'\<rparr>"
      "snd (validate_fields h ?s1 fd cs ?res ?ok) = snd (validate_fields h ?t1 fd cs ?res ?ok)"
      using Cons.IH[OF st, of ?res ?ok] by blast
    show ?thesis
      unfolding c using ev' vf by (intro exI[of _ "ev @ ev'"]) (simp add: Let_def)
  qed
qed

lemma validateForm_rel:
  assumes "store_of s = store_of t"
  shows "\<exists>ev. fst (validateForm h s fd) = s\<lparr>journal := journal s @ ev\<rparr>
      \<and> fst (validateForm h t fd) = t\<lparr>journal := journal t @ ev\<rparr>
      \<and> snd (validateForm h s fd) = snd (validateForm h t fd)"
proof -
  have cfg: "fieldConfigs t = fieldConfigs s"
    using assms by (simp add: store_of_def)
  obtain ev where ev:
    "fst (validate_fields h s fd (fieldConfigs s) [] True) = s\<lparr>journal := journal s @ ev\<rparr>"
    "fst (validate_fields h t fd (fieldConfigs s) [] True) = t\<lparr>journal := journal t @ ev\<rparr>"
    "snd (validate_fields h s fd (fieldConfigs s) [] True) = snd (validate_fields h t fd (fieldConfigs s) [] True)"
    using validate_fields_rel[OF assms, of h fd "fieldConfigs s" "[]" True] by blast
  have form: "validateForm h u fd =
     (fst (validate_fields h u fd (fieldConfigs u) [] True),
      case snd (validate_fields h u fd (fieldConfigs u) [] True) of Inl e \<Rightarrow> Inl e
      | Inr (results, isFormValid) \<Rightarrow>
          Inr \<lparr>form_isValid = isFormValid, form_fields = results, form_errors = getAllErrors results\<rparr>)" for u
    by (simp add: validateForm_def split: prod.splits sum.splits)
  show ?thesis
    unfolding form[of s] form[of t] cfg using ev by (intro exI[of _ ev]) simp
qed

lemma Map_get_Map_delete: "Map_get (Map_delete m k) k = None"
  by (auto simp: Map_get_def Map_delete_def map_of_eq_None_iff)

lemma same_registry_sym: "same_registry s t \<Longrightarrow> same_registry t s"
  by (simp add: same_registry_def)

lemma same_registry_refl: "same_registry s s"
  by (simp add: same_registry_def)

lemma same_registry_log_left: "same_registry s t \<Longrightarrow> same_registry (log_event s e) t"
  by (simp add: same_registry_def log_event_def)

lemma run_rules_append:
  "run_rules h s v fd (xs @ ys) errs =
     (case run_rules h s v fd xs errs of
        (s1, Inl e) \<Rightarrow> (s1, Inl e)
      | (s1, Inr errs1) \<Rightarrow> run_rules h s1 v fd ys errs1)"
proof (induction xs arbitrary: s errs)
  case Nil
  show ?case by simp
next
  case (Cons r xs)
  let ?n = "ruleName_of r" and ?p = "ruleParams_of r" and ?c = "customMessage_of r"
  show ?case
  proof (cases "Map_get (validationRules s) ?n")
    case None
    show ?thesis
      using Cons.IH by (simp add: run_rules_unknown[OF None])
  next
    case (Some p)
    let ?e = "Invoked ?n v ?p"
    show ?thesis
    proof (cases "p v ?p fd")
      case (Inl e)
      show ?thesis by (simp add: run_rules_throw[OF Some Inl])
    next
      case (Inr x)
      note px = Inr
      show ?thesis
      proof (cases "falsy_arg x")
        case False
        then have ok: "\<not> falsy_arg x" .
        show ?thesis using Cons.IH by (simp add: run_rules_pass[OF Some px ok])
      next
        case True
        then have ko: "falsy_arg x" .
        show ?thesis
        proof (cases "snd (failure_message h (log_event s ?e) ?n ?p ?c)")
          case (Inl e)
          show ?thesis by (simp add: run_rules_fail_throw[OF Some px ko Inl])
        next
          case (Inr m)
          show ?thesis using Cons.IH by (simp add: run_rules_fail[OF Some px ko Inr])
        qed
      qed
    qed
  qed
qed

text \<open>The loop when every rule is registered and nothing throws.\<close>

lemma outcome_cases:
  assumes "registered s r" "\<not> threw s v fd r"
  obtains p x where "Map_get (validationRules s) (ruleName_of r) = Some p"
    and "p v (ruleParams_of r) fd = Inr x" and "returned_falsy s v fd r = falsy_arg x"
    and "returned_false s v fd r = (x = js_bool False)"
    and "returned_boolean s v fd r \<Longrightarrow> falsy_arg x = (x = js_bool False)"
proof -
  obtain p where p: "Map_get (validationRules s) (ruleName_of r) = Some p"
    using assms(1) by (auto simp: registered_def)
  obtain x where x: "p v (ruleParams_of r) fd = Inr x"
    using assms(2) p by (cases "p v (ruleParams_of r) fd") (auto simp: threw_def outcome_def)
  have "returned_boolean s v fd r \<Longrightarrow> falsy_arg x = (x = js_bool False)"
    using p x
    by (auto simp: returned_boolean_def outcome_def js_bool_def split: sum.splits jsarg.splits jsval.splits)
  with p x show ?thesis
    by (intro that[of p x]) (simp_all add: returned_falsy_def returned_false_def outcome_def)
qed

lemma run_rules_total:
  assumes "same_registry t s"
    and "\<forall>r\<in>set rs. registered s r"
    and "\<forall>r\<in>set rs. \<not> threw s v fd r"
    and "\<forall>r\<in>set rs. returned_falsy s v fd r \<longrightarrow>
           (\<exists>m. snd (failure_message h s (ruleName_of r) (ruleParams_of r) (customMessage_of r)) = Inr m)"
  shows "\<exists>fails. run_rules h t v fd rs errs =
            (t\<lparr>journal := journal t @ map (invocation v) rs\<rparr>, Inr (errs @ fails))
          \<and> map rule fails = map ruleName_of (filter (returned_falsy s v fd) rs)"
  using assms
proof (induction rs arbitrary: t errs)
  case Nil
  show ?case by simp
next
  case (Cons r rs)
  let ?n = "ruleName_of r" and ?p = "ruleParams_of r" and ?c = "customMessage_of r"
  let ?e = "Invoked ?n v ?p"
  have reg: "validationRules t = validationRules s"
    using Cons.prems(1) by (simp add: same_registry_def)
  have "registered s r" "\<not> threw s v fd r"
    using Cons.prems(2,3) by simp_all
  then obtain p x where ps: "Map_get (validationRules s) ?n = Some p" and px: "p v ?p fd = Inr x"
      and rf: "returned_falsy s v fd r = falsy_arg x"
    by (rule outcome_cases)
  have p: "Map_get (validationRules t) ?n = Some p"
    using ps reg by simp
  have e: "?e = invocation v r"
    by (simp add: invocation_def)
  have t1: "same_registry (log_event t ?e) s"
    by (rule same_registry_log_left[OF Cons.prems(1)])
  have IH: "\<exists>fails. run_rules h (log_event t ?e) v fd rs errs' =
            (t\<lparr>journal := journal t @ ?e # map (invocation v) rs\<rparr>, Inr (errs' @ fails))
          \<and> map rule fails = map ruleName_of (filter (returned_falsy s v fd) rs)" for errs'
    using Cons.IH[OF t1, of errs'] Cons.prems(2,3,4) by (simp add: log_event_append)
  show ?case
  proof (cases "falsy_arg x")
    case False
    then have ok: "\<not> falsy_arg x" .
    show ?thesis
      using IH[of errs] False by (simp add: run_rules_pass[OF p px ok] rf e)
  next
    case True
    then have ko: "falsy_arg x" .
    obtain m where "snd (failure_message h s ?n ?p ?c) = Inr m"
      using Cons.prems(4) rf True by auto
    then have m: "snd (failure_message h (log_event t ?e) ?n ?p ?c) = Inr m"
      using failure_message_snd[OF t1] by simp
    obtain fails where fails:
      "run_rules h (log_event t ?e) v fd rs (errs @ [\<lparr>rule = ?n, message = m, params = ?p\<rparr>]) =
         (t\<lparr>journal := journal t @ ?e # map (invocation v) rs\<rparr>,
          Inr ((errs @ [\<lparr>rule = ?n, message = m, params = ?p\<rparr>]) @ fails))"
      "map rule fails = map ruleName_of (filter (returned_falsy s v fd) rs)"
      using IH[of "errs @ [\<lparr>rule = ?n, message = m, params = ?p\<rparr>]"] by blast
    show ?thesis
      by (rule exI[of _ "\<lparr>rule = ?n, message = m, params = ?p\<rparr> # fails"])
         (simp add: run_rules_fail[OF p px ko m] fails[unfolded e] rf True e)
  qed
qed

text \<open>When every predicate returns a boolean, a failure is the boolean \<^verbatim>\<open>false\<close>.\<close>

lemma filter_returned_boolean:
  assumes "\<forall>r\<in>set rs. registered s r" "\<forall>r\<in>set rs. \<not> threw s v fd r"
    and "\<forall>r\<in>set rs. returned_boolean s v fd r"
  shows "filter (returned_falsy s v fd) rs = filter (returned_false s v fd) rs"
proof (rule filter_cong[OF refl])
  fix r
  assume r: "r \<in> set rs"
  then have "registered s r" "\<not> threw s v fd r" "returned_boolean s v fd r"
    using assms by simp_all
  from outcome_cases[OF this(1,2)] this(3)
  show "returned_falsy s v fd r = returned_false s v fd r"
    by metis
qed

lemma validateField_configured:
  "Map_get (fieldConfigs s) f = Some (Config (RuleList rs)) \<Longrightarrow>
   validateField h s f v fd =
     (fst (run_rules h s v (formData_or_default fd) rs []),
      case snd (run_rules h s v (formData_or_default fd) rs []) of
        Inl e \<Rightarrow> Inl e
      | Inr errs \<Rightarrow> Inr \<lparr>isValid = (length errs = 0), errors = errs\<rparr>)"
  by (simp add: validateField_def split: prod.splits sum.splits)

lemma FormValidator_validationRules:
  "validationRules (FormValidator h) =
     [(''required'', required h), (''minLength'', minLength h), (''maxLength'', maxLength h),
      (''email'', email h), (''phone'', phone h), (''number'', number h), (''min'', min_rule h),
      (''max'', max_rule h), (''pattern'', pattern h), (''password'', password h),
      (''confirmPassword'', confirmPassword h), (''age'', age h), (''date'', date h), (''url'', url h)]"
  by (simp add: FormValidator_def initializeDefaultRules_def default_rules_def addValidationRule_def)

lemma FormValidator_errorMessages:
  "errorMessages (FormValidator h) = map (\<lambda>(n, p, m). (n, m)) (default_rules h)"
  by (simp add: FormValidator_def initializeDefaultRules_def default_rules_def addValidationRule_def)

lemma FormValidator_fieldConfigs: "fieldConfigs (FormValidator h) = []"
  by (simp add: FormValidator_def initializeDefaultRules_def default_rules_def addValidationRule_def)

lemma FormValidator_journal: "journal (FormValidator h) = []"
  by (simp add: FormValidator_def initializeDefaultRules_def default_rules_def addValidationRule_def)

lemma configureField_simps:
  "validationRules (configureField s f c) = validationRules s"
  "errorMessages (configureField s f c) = errorMessages s"
  "fieldConfigs (configureField s f c) = Map_set (fieldConfigs s) f c"
  "journal (configureField s f c) = journal s"
  by (simp_all add: configureField_def)

lemma addValidationRule_simps:
  "validationRules (addValidationRule s n p m) = Map_set (validationRules s) n p"
  "errorMessages (addValidationRule s n p m) = Map_set (errorMessages s) n m"
  "fieldConfigs (addValidationRule s n p m) = fieldConfigs s"
  "journal (addValidationRule s n p m) = journal s"
  by (simp_all add: addValidationRule_def)

lemmas state_simps =
  FormValidator_validationRules FormValidator_errorMessages FormValidator_fieldConfigs
  FormValidator_journal configureField_simps addValidationRule_simps Map_get_def default_rules_def



lemma registered_cong: "same_registry s t \<Longrightarrow> registered s = registered t"
  by (rule ext) (simp add: registered_def same_registry_def)





lemma GetSubstitution_dollar_free:
  "dollar_free repl \<Longrightarrow> GetSubstitution m b a repl = repl"
  by (induction m b a repl rule: GetSubstitution.induct) (auto simp: dollar_free_def)

lemma placeholder_length: "length (placeholder key) = Suc (Suc (length key))"
  by (simp add: placeholder_def)

lemma placeholder_nonempty: "placeholder key \<noteq> []"
  by (simp add: placeholder_def)

lemma replace_scan_dollar_free:
  "dollar_free repl \<Longrightarrow> replace_scan key repl bef s = replace_every (placeholder key) repl s"
  by (induction key repl bef s rule: replace_scan.induct)
     (simp_all add: GetSubstitution_dollar_free placeholder_length placeholder_nonempty)

lemma format_entries_plain:
  "list_all (\<lambda>(k, v). plain_key k \<and> dollar_free (text_form h v)) kvs \<Longrightarrow>
   format_entries h kvs msg = Inr (substitute_all h kvs msg)"
proof (induction kvs arbitrary: msg)
  case Nil
  show ?case by (simp add: substitute_all_def)
next
  case (Cons kv kvs)
  obtain k v where kv: "kv = (k, v)" by (cases kv)
  have IH: "format_entries h kvs m = Inr (substitute_all h kvs m)" for m
    using Cons by simp
  have k: "list_all plain_char k" "dollar_free (text_form h v)"
    using Cons.prems by (simp_all add: kv plain_key_def)
  show ?case
    unfolding kv
    by (simp add: IH k replace_placeholder_def replace_scan_dollar_free substitute_all_def substitutable_def)
qed

lemma replace_every_absent:
  "\<not> sublist pat s \<Longrightarrow> replace_every pat rep s = s"
  by (induction pat rep s rule: replace_every.induct) (auto simp: sublist_Cons_right)

lemma plain_char_brace: "\<not> plain_char (CHR ''{'')" "\<not> plain_char (CHR ''}'')"
  by (simp_all add: plain_char_def is_upper_def is_lower_def is_digit_def digit_chars_def)

lemma plain_key_brace: "plain_key k \<Longrightarrow> CHR ''{'' \<notin> set k \<and> CHR ''}'' \<notin> set k"
  using plain_char_brace by (auto simp: plain_key_def list_all_iff)

lemma prefix_until:
  "c \<notin> set j \<Longrightarrow> c \<notin> set k \<Longrightarrow> prefix (j @ [c]) (k @ c # w) \<Longrightarrow> j = k"
proof (induction j arbitrary: k)
  case Nil
  then show ?case by (cases k) auto
next
  case (Cons a j)
  then show ?case by (cases k) auto
qed

lemma placeholder_prefix_same:
  "plain_key j \<Longrightarrow> plain_key k \<Longrightarrow> prefix (placeholder j) (placeholder k @ w) \<Longrightarrow> j = k"
  using prefix_until[of "CHR ''}''" j k w] plain_key_brace[of j] plain_key_brace[of k]
  by (simp add: placeholder_def)

lemma replace_every_no_brace:
  "CHR ''{'' \<notin> set x \<Longrightarrow>
   replace_every (placeholder j) t (x @ y) = x @ replace_every (placeholder j) t y"
  by (induction x) (auto simp: placeholder_def)

lemma replace_every_other_placeholder:
  assumes "plain_key j" "plain_key k" "j \<noteq> k"
  shows "replace_every (placeholder j) t (placeholder k @ w) = placeholder k @ replace_every (placeholder j) t w"
proof -
  have no: "\<not> prefix (placeholder j) (placeholder k @ w)"
    using placeholder_prefix_same[OF assms(1,2)] assms(3) by blast
  have "CHR ''{'' \<notin> set (k @ ''}'')"
    using plain_key_brace[OF assms(2)] by simp
  from replace_every_no_brace[OF this, of j t w]
  have tail: "replace_every (placeholder j) t (k @ CHR ''}'' # w) = k @ CHR ''}'' # replace_every (placeholder j) t w"
    by simp
  have "placeholder k @ w = CHR ''{'' # k @ CHR ''}'' # w"
    by (simp add: placeholder_def)
  then show ?thesis
    using no tail by (simp add: placeholder_def)
qed

lemma placeholder_prefix_front:
  assumes "plain_key j" "a \<noteq> []" "prefix (placeholder j) (a @ placeholder k @ b)"
  shows "prefix (placeholder j) a"
proof (rule ccontr)
  assume n: "\<not> prefix (placeholder j) a"
  then obtain us where us: "placeholder j = a @ us" "prefix us (placeholder k @ b)"
    using assms(3) by (auto simp: prefix_append)
  have "us \<noteq> []" using n us(1) by auto
  then obtain us' where "us = CHR ''{'' # us'"
    using us(2) by (cases us) (auto simp: placeholder_def)
  moreover obtain a0 a' where "a = a0 # a'"
    using assms(2) by (cases a) auto
  ultimately have "j @ ''}'' = a' @ CHR ''{'' # us'"
    using us(1) by (simp add: placeholder_def)
  then have "CHR ''{'' \<in> set (j @ ''}'')"
    by simp
  then show False
    using plain_key_brace[OF assms(1)] by simp
qed

lemma replace_every_keeps:
  assumes "plain_key j" "plain_key k" "j \<noteq> k"
  shows "sublist (placeholder k) s \<Longrightarrow> sublist (placeholder k) (replace_every (placeholder j) t s)"
proof (induction s rule: measure_induct_rule[of length])
  case (less s)
  from less.prems obtain a b where s: "s = a @ placeholder k @ b"
    by (auto simp: sublist_def)
  show ?case
  proof (cases s)
    case Nil
    then show ?thesis using s by (simp add: placeholder_def)
  next
    case (Cons c cs)
    show ?thesis
    proof (cases "prefix (placeholder j) s")
      case True
      have "a \<noteq> []"
        using True placeholder_prefix_same[OF assms(1,2), of b] assms(3) s by auto
      from placeholder_prefix_front[OF assms(1) this True[unfolded s]]
      obtain a' where a: "a = placeholder j @ a'"
        by (auto simp: prefix_def)
      have rest: "drop (length (placeholder j) - 1) cs = a' @ placeholder k @ b"
        using s a Cons by (simp add: placeholder_def)
      have "length (a' @ placeholder k @ b) < length s"
        using s a by (simp add: placeholder_def)
      from less.IH[OF this] have "sublist (placeholder k) (replace_every (placeholder j) t (a' @ placeholder k @ b))"
        by simp
      then have "sublist (placeholder k) (t @ replace_every (placeholder j) t (a' @ placeholder k @ b))"
        by (simp add: sublist_append)
      then show ?thesis
        using True rest Cons by (simp add: placeholder_nonempty)
    next
      case False
      then have out: "replace_every (placeholder j) t s = c # replace_every (placeholder j) t cs"
        using Cons by simp
      show ?thesis
      proof (cases a)
        case Nil
        then show ?thesis
          using s replace_every_other_placeholder[OF assms, of t b] by simp
      next
        case (Cons a0 a')
        then have cs: "cs = a' @ placeholder k @ b"
          using s \<open>s = c # cs\<close> by simp
        then have "sublist (placeholder k) cs" by simp
        moreover have "length cs < length s" using \<open>s = c # cs\<close> by simp
        ultimately have "sublist (placeholder k) (replace_every (placeholder j) t cs)"
          using less.IH by blast
        then show ?thesis
          unfolding out by (simp add: sublist_Cons_right)
      qed
    qed
  qed
qed

lemma substitute_all_keeps:
  "plain_key k \<Longrightarrow> list_all (\<lambda>(j, v). plain_key j \<and> j \<noteq> k) kvs \<Longrightarrow>
   sublist (placeholder k) m \<Longrightarrow> sublist (placeholder k) (substitute_all h kvs m)"
proof (induction kvs arbitrary: m)
  case Nil
  then show ?case by (simp add: substitute_all_def)
next
  case (Cons jv kvs)
  obtain j v where jv: "jv = (j, v)" by (cases jv)
  have j: "plain_key j" "j \<noteq> k" and rest: "list_all (\<lambda>(j, v). plain_key j \<and> j \<noteq> k) kvs"
    using Cons.prems(2) by (simp_all add: jv)
  let ?m = "if substitutable v then replace_every (placeholder j) (text_form h v) m else m"
  have "sublist (placeholder k) ?m"
    using replace_every_keeps[OF j(1) Cons.prems(1) j(2) Cons.prems(3)] Cons.prems(3) by simp
  from Cons.IH[OF Cons.prems(1) rest this]
  show ?case
    by (simp add: jv substitute_all_def)
qed

lemma builtin_on_falsy:
  assumes "falsy_any v"
  shows "minLength h v ps fd = Inr (js_bool True)" "maxLength h v ps fd = Inr (js_bool True)"
    "email h v ps fd = Inr (js_bool True)" "phone h v ps fd = Inr (js_bool True)"
    "number h v ps fd = Inr (js_bool True)" "min_rule h v ps fd = Inr (js_bool True)"
    "max_rule h v ps fd = Inr (js_bool True)" "pattern h v ps fd = Inr (js_bool True)"
    "password h v ps fd = Inr (js_bool True)" "confirmPassword h v ps fd = Inr (js_bool True)"
    "age h v ps fd = Inr (js_bool True)" "date h v ps fd = Inr (js_bool True)"
    "url h v ps fd = Inr (js_bool True)"
  using assms
  by (simp_all add: minLength_def maxLength_def email_def phone_def number_def min_rule_def
        max_rule_def pattern_def password_def confirmPassword_def age_def date_def url_def)

lemma optional_rule_on_falsy:
  assumes "name \<in> set optional_rule_names" "falsy_any v"
  shows "\<exists>p. Map_get (validationRules (FormValidator h)) name = Some p \<and> p v ps fd = Inr (js_bool True)"
  using assms(1) builtin_on_falsy[OF assms(2)]
  by (auto simp: optional_rule_names_def FormValidator_validationRules Map_get_def)

lemma required_iff:
  "required h v ps fd =
     Inr (js_bool (v \<noteq> Plain JNull \<and> v \<noteq> Plain JUndefined \<and> trim (text_any h v) \<noteq> []))"
proof (cases v)
  case (Plain w)
  then show ?thesis by (cases w) (simp_all add: required_def)
next
  case (Inherited n)
  then show ?thesis by (simp add: required_def)
qed

lemmas eval_simps =
  state_simps validateField_def run_rules.simps failure_message_def formatErrorMessage_def
  template_of_def log_event_def formData_or_default_def Let_def obj_get_def formData_get_def
  js_bool_def Object_prototype_names_def
  required_def email_def phone_def minLength_def trim_def is_space_def
  rx_full_def emailRegex_def email_part_def js_ge_def
  replace_placeholder_def plain_char_def is_upper_def is_lower_def is_digit_def digit_chars_def
  placeholder_def show_int_def


text \<open>\<^verbatim>\<open>validateField\<close> at one rule of the configuration, the rules before it having run.\<close>

lemma validateField_returning:
  "Map_get (fieldConfigs s) f = Some (Config (RuleList rs)) \<Longrightarrow>
   validateField h s f v fd = returning (run_rules h s v (formData_or_default fd) rs [])"
  by (simp add: validateField_def returning_def split: prod.splits sum.splits)

lemma validateField_at_rule:
  assumes "Map_get (fieldConfigs t) g = Some (Config (RuleList (before @ r # rest)))"
    and "run_rules h t v (formData_or_default fd) before [] = (s1, Inr errs)"
    and "Map_get (validationRules t) (ruleName_of r) = Some p"
  shows "validateField h t g v fd =
     (case p v (ruleParams_of r) (formData_or_default fd) of
        Inl e \<Rightarrow> (log_event s1 (invocation v r), Inl e)
      | Inr x \<Rightarrow>
          if falsy_arg x then
            (case snd (failure_message h t (ruleName_of r) (ruleParams_of r) (customMessage_of r)) of
               Inl e \<Rightarrow> (log_event s1 (invocation v r), Inl e)
             | Inr m \<Rightarrow>
                 returning (run_rules h (log_event s1 (invocation v r)) v (formData_or_default fd) rest
                   (errs @ [\<lparr>rule = ruleName_of r, message = m, params = ruleParams_of r\<rparr>])))
          else returning (run_rules h (log_event s1 (invocation v r)) v (formData_or_default fd) rest errs))"
proof -
  let ?n = "ruleName_of r" and ?p = "ruleParams_of r" and ?c = "customMessage_of r"
  let ?fd = "formData_or_default fd"
  let ?e = "Invoked ?n v ?p"
  have e: "invocation v r = ?e"
    by (simp add: invocation_def)
  obtain ev where "fst (run_rules h t v ?fd before []) = t\<lparr>journal := journal t @ ev\<rparr>"
    using run_rules_frame by blast
  then have s1: "s1 = t\<lparr>journal := journal t @ ev\<rparr>"
    using assms(2) by simp
  have p1: "Map_get (validationRules s1) ?n = Some p"
    using assms(3) by (simp add: s1)
  have reg: "same_registry (log_event s1 ?e) t"
    by (simp add: same_registry_def log_event_def s1)
  have run: "validateField h t g v fd = returning (run_rules h s1 v ?fd (r # rest) errs)"
    by (simp add: validateField_returning[OF assms(1)] run_rules_append assms(2))
  show ?thesis
  proof (cases "p v ?p ?fd")
    case (Inl e')
    show ?thesis
      unfolding run e by (simp add: run_rules_throw[OF p1 Inl] Inl returning_def)
  next
    case (Inr x)
    note px = Inr
    show ?thesis
    proof (cases "falsy_arg x")
      case False
      then have ok: "\<not> falsy_arg x" .
      show ?thesis
        unfolding run e by (simp add: run_rules_pass[OF p1 px ok] px ok)
    next
      case True
      then have ko: "falsy_arg x" .
      show ?thesis
      proof (cases "snd (failure_message h t ?n ?p ?c)")
        case (Inl e')
        then have "snd (failure_message h (log_event s1 ?e) ?n ?p ?c) = Inl e'"
          using failure_message_snd[OF reg] by simp
        from run_rules_fail_throw[OF p1 px ko this] show ?thesis
          unfolding run e by (simp add: px ko Inl returning_def)
      next
        case (Inr m)
        then have "snd (failure_message h (log_event s1 ?e) ?n ?p ?c) = Inr m"
          using failure_message_snd[OF reg] by simp
        from run_rules_fail[OF p1 px ko this] show ?thesis
          unfolding run e by (simp add: px ko Inr)
      qed
    qed
  qed
qed

section \<open>The prototype chain in \<^verbatim>\<open>validateForm\<close>\<close>

text \<open>
  \<^verbatim>\<open>validateForm\<close> reads the value of a field with \<^verbatim>\<open>formData[fieldName]\<close> and stores its
  result with \<^verbatim>\<open>results[fieldName] = fieldResult\<close>. A field named \<^verbatim>\<open>toString\<close> that the form
  data does not hold gets the function of that name as its value, and so passes
  \<^verbatim>\<open>required\<close>. A field named \<^verbatim>\<open>__proto__\<close> gets the prototype object as its value, whose
  text \<^verbatim>\<open>[object Object]\<close> is no address; its result is never an own property of
  \<^verbatim>\<open>results\<close>, so the form is invalid with no field and no error to show for it.
\<close>

lemma validateForm_inherited_member:
  "snd (validateForm example_host
          (configureField (FormValidator example_host) ''toString'' (Config (RuleList [Bare ''required''])))
          [])
   = Inr \<lparr>form_isValid = True, form_fields = [(''toString'', \<lparr>isValid = True, errors = []\<rparr>)],
          form_errors = []\<rparr>"
  by (simp add: validateForm_def getAllErrors_def obj_set_def array_index_def example_host_def eval_simps)

lemma validateForm_proto_field:
  "snd (validateForm example_host
          (configureField (FormValidator example_host) ''__proto__'' (Config (RuleList [Bare ''email''])))
          [])
   = Inr \<lparr>form_isValid = False, form_fields = [], form_errors = []\<rparr>"
  by (simp add: validateForm_def getAllErrors_def obj_set_def array_index_def example_host_def eval_simps)

section \<open>A predicate that throws\<close>

text \<open>
  Claim C1 says that an exception thrown by a rule's predicate during \<^verbatim>\<open>validateField\<close> is
  caught and converted into a \<^verbatim>\<open>RuleFailure\<close>, that the remaining rules are still
  evaluated, and that \<^verbatim>\<open>validateField\<close> returns a result. \<^verbatim>\<open>validateField\<close> has no handler
  around the call of the predicate. With the rules \<^verbatim>\<open>required\<close>, \<^verbatim>\<open>boom\<close>, \<^verbatim>\<open>email\<close> on the
  value \<^verbatim>\<open>'x'\<close>, where \<^verbatim>\<open>boom\<close> throws, the call throws after invoking \<^verbatim>\<open>required\<close> and
  \<^verbatim>\<open>boom\<close>, and \<^verbatim>\<open>email\<close> is never invoked. With the built-in rules \<^verbatim>\<open>phone\<close>, \<^verbatim>\<open>required\<close>
  on the number \<^verbatim>\<open>5\<close>, the call throws the \<^verbatim>\<open>TypeError\<close> of \<^verbatim>\<open>value.replace\<close>.
\<close>

theorem throwing_predicate_counterexample:
  "validateField example_host boom_state ''code'' (Plain (JStr ''x'')) None =
     (boom_state\<lparr>journal := [Invoked ''required'' (Plain (JStr ''x'')) (Obj []),
                             Invoked ''boom'' (Plain (JStr ''x'')) (Obj [])]\<rparr>,
      Inl (Thrown ''boom''))
   \<and> validateField example_host tel_state ''tel'' (Plain (JNum (Fin 5))) None =
     (tel_state\<lparr>journal := [Invoked ''phone'' (Plain (JNum (Fin 5))) (Obj [])]\<rparr>, Inl TypeError)"
  by (simp add: boom_state_def tel_state_def throwing_rule_def eval_simps)

text \<open>
  Claim C1, amended. If the rules before a rule of the field's configuration run without
  an exception and the predicate of that rule throws, then \<^verbatim>\<open>validateField\<close> throws that
  same exception to its caller: it returns no result, the failures collected so far are
  lost, and the last thing the call does is to invoke the throwing predicate, so that no
  rule after it is evaluated.
\<close>

theorem throwing_predicate_propagates:
  assumes "Map_get (fieldConfigs s) f = Some (Config (RuleList (before @ r # rest)))"
    and "run_rules h s v (formData_or_default fd) before [] = (s1, Inr errs)"
    and "outcome s v (formData_or_default fd) r = Some (Inl e)"
  shows "validateField h s f v fd = (log_event s1 (invocation v r), Inl e)"
proof -
  obtain ev where "fst (run_rules h s v (formData_or_default fd) before []) = s\<lparr>journal := journal s @ ev\<rparr>"
    using run_rules_frame by blast
  then have "validationRules s1 = validationRules s"
    using assms(2) by simp
  then obtain p where p: "Map_get (validationRules s1) (ruleName_of r) = Some p"
      and thr: "p v (ruleParams_of r) (formData_or_default fd) = Inl e"
    using assms(3) by (auto simp: outcome_def split: option.splits)
  show ?thesis
    by (simp add: validateField_configured[OF assms(1)] run_rules_append assms(2)
          run_rules_throw[OF p thr] invocation_def)
qed

theorem throwing_predicate_propagates_witness:
  "validateField example_host boom_state ''code'' (Plain (JStr [])) None =
     (boom_state\<lparr>journal := [Invoked ''required'' (Plain (JStr [])) (Obj []),
                             Invoked ''boom'' (Plain (JStr [])) (Obj [])]\<rparr>,
      Inl (Thrown ''boom''))"
proof -
  have cfg: "Map_get (fieldConfigs boom_state) ''code'' =
               Some (Config (RuleList ([Bare ''required''] @ Bare ''boom'' # [Bare ''email''])))"
    by (simp add: boom_state_def state_simps)
  have pre: "run_rules example_host boom_state (Plain (JStr [])) (formData_or_default None) [Bare ''required''] [] =
               (boom_state\<lparr>journal := [Invoked ''required'' (Plain (JStr [])) (Obj [])]\<rparr>,
                Inr [\<lparr>rule = ''required'', message = ''This field is required'', params = Obj []\<rparr>])"
    by (simp add: boom_state_def eval_simps)
  have thr: "outcome boom_state (Plain (JStr [])) (formData_or_default None) (Bare ''boom'') = Some (Inl (Thrown ''boom''))"
    by (simp add: outcome_def boom_state_def throwing_rule_def state_simps)
  show ?thesis
    using throwing_predicate_propagates[OF cfg pre thr]
    by (simp add: log_event_def invocation_def)
qed

section \<open>Every rule is evaluated\<close>

text \<open>
  Claim C2 says that for a field whose \<open>n\<close> rules are all registered, \<^verbatim>\<open>validateField\<close>
  invokes every one of the \<open>n\<close> predicates in the declared order, that the number of
  errors it returns is the number of predicates that returned false, and that \<^verbatim>\<open>isValid\<close>
  is true iff that number is zero. Three runs stand against it, each on a configuration
  whose rules are all registered. \<^verbatim>\<open>validateField\<close> has no handler around the call of a
  predicate: with the built-in rules \<^verbatim>\<open>phone\<close>, \<^verbatim>\<open>required\<close> on the number \<^verbatim>\<open>5\<close> the call
  throws the \<^verbatim>\<open>TypeError\<close> of \<^verbatim>\<open>value.replace\<close> after invoking \<^verbatim>\<open>phone\<close>, and \<^verbatim>\<open>required\<close> is
  never invoked. The loop reads what a predicate returns with \<^verbatim>\<open>!isValid\<close>: a predicate
  that returns \<^verbatim>\<open>undefined\<close> has not returned false, yet its rule is among the errors and
  \<^verbatim>\<open>isValid\<close> is false. And when the rule \<^verbatim>\<open>required\<close> fails with a parameter named \<^verbatim>\<open>(\<close>,
  the formatting of its message throws a \<^verbatim>\<open>SyntaxError\<close>: the call ends right after a
  failure, and the rule \<^verbatim>\<open>email\<close> behind it is never invoked.
\<close>

theorem validateField_runs_every_rule_counterexample:
  "registered tel_state (Bare ''phone'') \<and> registered tel_state (Bare ''required'')
   \<and> validateField example_host tel_state ''tel'' (Plain (JNum (Fin 5))) None =
       (tel_state\<lparr>journal := [Invoked ''phone'' (Plain (JNum (Fin 5))) (Obj [])]\<rparr>, Inl TypeError)
   \<and> registered forgetful_state (Bare ''checked'')
   \<and> outcome forgetful_state (Plain (JStr ''x'')) [] (Bare ''checked'') = Some (Inr (Prim JUndefined))
   \<and> returned_false forgetful_state (Plain (JStr ''x'')) [] (Bare ''checked'') = False
   \<and> validateField example_host forgetful_state ''code'' (Plain (JStr ''x'')) None =
       (forgetful_state\<lparr>journal := [Invoked ''checked'' (Plain (JStr ''x'')) (Obj [])]\<rparr>,
        Inr \<lparr>isValid = False,
              errors = [\<lparr>rule = ''checked'', message = ''Not checked'', params = Obj []\<rparr>]\<rparr>)
   \<and> registered paren_state (Ref ''required'' (Obj [(''('', JNum (Fin 1))]) None)
   \<and> registered paren_state (Bare ''email'')
   \<and> validateField example_host paren_state ''name'' (Plain (JStr [])) None =
       (paren_state\<lparr>journal := [Invoked ''required'' (Plain (JStr [])) (Obj [(''('', JNum (Fin 1))])]\<rparr>,
        Inl SyntaxError)"
  by (simp add: tel_state_def forgetful_state_def paren_state_def forgetful_def registered_def
        outcome_def returned_false_def example_host_def placeholder_source_def eval_simps)

text \<open>
  Claim C2, amended. Take a field whose configuration has \<open>n\<close> rules, all of them
  registered, and a call of \<^verbatim>\<open>validateField\<close> in which no predicate throws and the
  formatting of the message of no failing rule throws. Then \<^verbatim>\<open>validateField\<close> returns a
  result, having invoked every one of the \<open>n\<close> predicates in the declared order and
  nothing else (there is no early exit after a failure). The errors of the result are the
  rules whose predicate returned a value that counts as false (\<^verbatim>\<open>false\<close>, \<^verbatim>\<open>undefined\<close>,
  \<^verbatim>\<open>null\<close>, \<^verbatim>\<open>0\<close>, \<^verbatim>\<open>NaN\<close> or the empty string), in order, so their number is the number of
  such rules, and \<^verbatim>\<open>isValid\<close> is true iff that number is zero. When every predicate returns
  a boolean, as the built-in ones do, that number is the number of predicates that
  returned false.
\<close>

theorem validateField_runs_every_rule:
  assumes "Map_get (fieldConfigs s) f = Some (Config (RuleList rs))"
    and "\<forall>r\<in>set rs. registered s r"
    and "\<forall>r\<in>set rs. \<not> threw s v (formData_or_default fd) r"
    and "\<forall>r\<in>set rs. returned_falsy s v (formData_or_default fd) r \<longrightarrow>
           (\<exists>m. snd (failure_message h s (ruleName_of r) (ruleParams_of r) (customMessage_of r)) = Inr m)"
  shows "\<exists>res. validateField h s f v fd = (s\<lparr>journal := journal s @ map (invocation v) rs\<rparr>, Inr res)
      \<and> map rule (errors res) = map ruleName_of (filter (returned_falsy s v (formData_or_default fd)) rs)
      \<and> length (errors res) = length (filter (returned_falsy s v (formData_or_default fd)) rs)
      \<and> isValid res = (length (filter (returned_falsy s v (formData_or_default fd)) rs) = 0)
      \<and> ((\<forall>r\<in>set rs. returned_boolean s v (formData_or_default fd) r) \<longrightarrow>
            length (errors res) = length (filter (returned_false s v (formData_or_default fd)) rs)
          \<and> isValid res = (length (filter (returned_false s v (formData_or_default fd)) rs) = 0))"
proof -
  let ?fd = "formData_or_default fd"
  obtain fails where fails:
    "run_rules h s v ?fd rs [] = (s\<lparr>journal := journal s @ map (invocation v) rs\<rparr>, Inr ([] @ fails))"
    "map rule fails = map ruleName_of (filter (returned_falsy s v ?fd) rs)"
    using run_rules_total[OF same_registry_refl assms(2,3,4), of "[]"] by blast
  have len: "length fails = length (filter (returned_falsy s v ?fd) rs)"
    using fails(2) by (metis length_map)
  have bool: "filter (returned_falsy s v ?fd) rs = filter (returned_false s v ?fd) rs"
    if "\<forall>r\<in>set rs. returned_boolean s v ?fd r"
    using filter_returned_boolean[OF assms(2,3) that] .
  have run: "validateField h s f v fd =
      (s\<lparr>journal := journal s @ map (invocation v) rs\<rparr>, Inr \<lparr>isValid = (length fails = 0), errors = fails\<rparr>)"
    by (simp add: validateField_returning[OF assms(1)] fails(1) returning_def)
  show ?thesis
  proof (intro exI[of _ "\<lparr>isValid = (length fails = 0), errors = fails\<rparr>"] conjI impI)
    show "validateField h s f v fd =
      (s\<lparr>journal := journal s @ map (invocation v) rs\<rparr>, Inr \<lparr>isValid = (length fails = 0), errors = fails\<rparr>)"
      by (rule run)
  next
    assume b: "\<forall>r\<in>set rs. returned_boolean s v ?fd r"
    show "length (errors \<lparr>isValid = (length fails = 0), errors = fails\<rparr>) =
            length (filter (returned_false s v ?fd) rs)"
      using len bool[OF b] by simp
    show "isValid \<lparr>isValid = (length fails = 0), errors = fails\<rparr> =
            (length (filter (returned_false s v ?fd) rs) = 0)"
      using len bool[OF b] by simp
  qed (simp_all add: fails(2) len)
qed

theorem validateField_runs_every_rule_witness:
  "\<exists>res. validateField example_host username_state ''username'' (Plain (JStr ''ab'')) None =
      (username_state\<lparr>journal :=
         [Invoked ''required'' (Plain (JStr ''ab'')) (Obj []),
          Invoked ''minLength'' (Plain (JStr ''ab'')) (Obj [(''length'', JNum (Fin 5))]),
          Invoked ''email'' (Plain (JStr ''ab'')) (Obj [])]\<rparr>, Inr res)
    \<and> map rule (errors res) = [''minLength'', ''email'']
    \<and> length (errors res) = 2
    \<and> isValid res = False
    \<and> length (errors res) =
        length (filter (returned_false username_state (Plain (JStr ''ab'')) []) username_rules)"
proof -
  let ?v = "Plain (JStr ''ab'')"
  have o1: "outcome username_state ?v [] (Bare ''required'') = Some (Inr (js_bool True))"
    by (simp add: outcome_def username_state_def eval_simps)
  have o2: "outcome username_state ?v [] (Ref ''minLength'' (Obj [(''length'', JNum (Fin 5))]) None) =
              Some (Inr (js_bool False))"
    by (simp add: outcome_def username_state_def eval_simps)
  have o3: "outcome username_state ?v [] (Bare ''email'') = Some (Inr (js_bool False))"
    by (simp add: outcome_def username_state_def eval_simps)
  have f2: "snd (failure_message example_host username_state ''minLength'' (Obj [(''length'', JNum (Fin 5))]) None) = Inr ''Must be at least 5 characters long''"
    by (simp add: username_state_def eval_simps)
  have f3: "snd (failure_message example_host username_state ''email'' (Obj []) None) = Inr ''Please enter a valid email address''"
    by (simp add: username_state_def eval_simps)
  have cfg: "Map_get (fieldConfigs username_state) ''username'' = Some (Config (RuleList username_rules))"
    by (simp add: username_state_def state_simps)
  have reg: "\<forall>r\<in>set username_rules. registered username_state r"
    by (simp add: username_rules_def registered_def username_state_def state_simps)
  have ret: "\<forall>r\<in>set username_rules. \<not> threw username_state ?v (formData_or_default None) r"
    by (simp add: username_rules_def formData_or_default_def threw_def o1 o2 o3)
  have fmt: "\<forall>r\<in>set username_rules. returned_falsy username_state ?v (formData_or_default None) r \<longrightarrow>
           (\<exists>m. snd (failure_message example_host username_state (ruleName_of r) (ruleParams_of r) (customMessage_of r)) = Inr m)"
    by (simp add: username_rules_def formData_or_default_def returned_falsy_def o1 f2 f3 js_bool_def)
  have bool: "\<forall>r\<in>set username_rules. returned_boolean username_state ?v [] r"
    by (simp add: username_rules_def returned_boolean_def o1 o2 o3 js_bool_def)
  have failing: "filter (returned_falsy username_state ?v []) username_rules =
           [Ref ''minLength'' (Obj [(''length'', JNum (Fin 5))]) None, Bare ''email'']"
    by (simp add: username_rules_def returned_falsy_def o1 o2 o3 js_bool_def)
  have invoked: "journal username_state @ map (invocation ?v) username_rules =
           [Invoked ''required'' ?v (Obj []),
            Invoked ''minLength'' ?v (Obj [(''length'', JNum (Fin 5))]),
            Invoked ''email'' ?v (Obj [])]"
    by (simp add: username_rules_def invocation_def username_state_def state_simps)
  have fd: "formData_or_default None = []"
    by (simp add: formData_or_default_def)
  note run = validateField_runs_every_rule[OF cfg reg ret fmt, unfolded fd]
  show ?thesis
    using run bool unfolding failing invoked by (auto simp: numeral_2_eq_2)
qed

section \<open>Unknown rule names\<close>



section \<open>A malformed configuration\<close>

text \<open>
  Claim C4 says that \<^verbatim>\<open>configureField\<close> raises a descriptive error at once when the
  configuration is malformed, in particular when its \<^verbatim>\<open>rules\<close> is not a list.
  \<^verbatim>\<open>configureField\<close> stores what it is given and checks nothing: with \<^verbatim>\<open>rules: 'required'\<close>
  the configuration is stored as it is, and it is the later \<^verbatim>\<open>validateField\<close> that throws,
  a \<^verbatim>\<open>TypeError\<close> since a string has no \<^verbatim>\<open>forEach\<close>.
\<close>

theorem malformed_config_counterexample:
  "Map_get (fieldConfigs (configureField (FormValidator example_host) ''age''
       (Config (NotAList (Prim (JStr ''required'')))))) ''age''
     = Some (Config (NotAList (Prim (JStr ''required''))))
   \<and> validateField example_host
       (configureField (FormValidator example_host) ''age'' (Config (NotAList (Prim (JStr ''required'')))))
       ''age'' (Plain (JStr ''30'')) None
     = (configureField (FormValidator example_host) ''age'' (Config (NotAList (Prim (JStr ''required'')))),
        Inl TypeError)"
  by (simp add: eval_simps)

text \<open>
  Claim C4, amended. \<^verbatim>\<open>configureField\<close> accepts every configuration without checking it
  and never raises: the configuration is stored as given and the registry is left as it
  was. When the stored configuration is not false and its \<^verbatim>\<open>rules\<close> is not a list, the
  error appears only at validation: every \<^verbatim>\<open>validateField\<close> of that field throws a
  \<^verbatim>\<open>TypeError\<close> and leaves the state as it was.
\<close>

theorem malformed_config_accepted:
  "Map_get (fieldConfigs (configureField s f c)) f = Some c
   \<and> same_registry (configureField s f c) s
   \<and> (\<not> falsy_config c \<and> rules_of c = NotAList x \<longrightarrow>
        validateField h (configureField s f c) f v fd = (configureField s f c, Inl TypeError))"
  by (simp add: configureField_def Map_get_Map_set same_registry_def validateField_def)

theorem malformed_config_accepted_witness:
  "Map_get (fieldConfigs (configureField (FormValidator example_host) ''age''
       (Config (NotAList (Prim JUndefined))))) ''age''
     = Some (Config (NotAList (Prim JUndefined)))
   \<and> validateField example_host
       (configureField (FormValidator example_host) ''age'' (Config (NotAList (Prim JUndefined))))
       ''age'' (Plain (JStr ''30'')) None
     = (configureField (FormValidator example_host) ''age'' (Config (NotAList (Prim JUndefined))),
        Inl TypeError)"
  using malformed_config_accepted[of "FormValidator example_host" "''age''"
          "Config (NotAList (Prim JUndefined))" "Prim JUndefined" example_host "Plain (JStr ''30'')" None]
  by simp

section \<open>The built-in rules on absent and empty values\<close>

text \<open>
  Claim C5. Each built-in rule other than \<^verbatim>\<open>required\<close> (\<^verbatim>\<open>minLength\<close>, \<^verbatim>\<open>maxLength\<close>,
  \<^verbatim>\<open>email\<close>, \<^verbatim>\<open>phone\<close>, \<^verbatim>\<open>number\<close>, \<^verbatim>\<open>min\<close>, \<^verbatim>\<open>max\<close>, \<^verbatim>\<open>pattern\<close>, \<^verbatim>\<open>password\<close>,
  \<^verbatim>\<open>confirmPassword\<close>, \<^verbatim>\<open>age\<close>, \<^verbatim>\<open>date\<close>, \<^verbatim>\<open>url\<close>), as a new validator has it registered,
  returns true when the value is \<^verbatim>\<open>undefined\<close>, \<^verbatim>\<open>null\<close> or the empty string, whatever the
  parameters and the form data. \<^verbatim>\<open>required\<close> returns true iff the value is neither \<^verbatim>\<open>null\<close>
  nor \<^verbatim>\<open>undefined\<close> and its text form, trimmed, is not empty.
\<close>

theorem builtin_rules_pass_on_absent:
  "(\<forall>name\<in>set optional_rule_names. \<forall>v\<in>{Plain JUndefined, Plain JNull, Plain (JStr [])}.
      \<exists>p. Map_get (validationRules (FormValidator h)) name = Some p \<and> p v ps fd = Inr (js_bool True))
   \<and> Map_get (validationRules (FormValidator h)) ''required'' = Some (required h)
   \<and> required h v ps fd =
       Inr (js_bool (v \<noteq> Plain JNull \<and> v \<noteq> Plain JUndefined \<and> trim (text_any h v) \<noteq> []))"
proof (intro conjI ballI)
  fix name v
  assume "name \<in> set optional_rule_names" "v \<in> {Plain JUndefined, Plain JNull, Plain (JStr [])}"
  moreover from this(2) have "falsy_any v" by auto
  ultimately show "\<exists>p. Map_get (validationRules (FormValidator h)) name = Some p \<and> p v ps fd = Inr (js_bool True)"
    using optional_rule_on_falsy by blast
next
  show "Map_get (validationRules (FormValidator h)) ''required'' = Some (required h)"
    by (simp add: FormValidator_validationRules Map_get_def)
next
  show "required h v ps fd =
          Inr (js_bool (v \<noteq> Plain JNull \<and> v \<noteq> Plain JUndefined \<and> trim (text_any h v) \<noteq> []))"
    by (rule required_iff)
qed

theorem builtin_rules_pass_on_absent_witness:
  "(\<exists>p. Map_get (validationRules (FormValidator example_host)) ''email'' = Some p
        \<and> p (Plain (JStr [])) (Prim JUndefined) [] = Inr (js_bool True))
   \<and> required example_host (Plain (JStr ''  '')) (Obj []) [] = Inr (js_bool False)
   \<and> required example_host (Plain (JBool False)) (Obj []) [] = Inr (js_bool True)"
proof -
  have name: "''email'' \<in> set optional_rule_names"
    by (simp add: optional_rule_names_def)
  have v: "Plain (JStr []) \<in> {Plain JUndefined, Plain JNull, Plain (JStr [])}"
    by simp
  note rules = builtin_rules_pass_on_absent[of example_host "Prim JUndefined" "[]", THEN conjunct1]
  note req = builtin_rules_pass_on_absent[of example_host _ _ _, THEN conjunct2, THEN conjunct2]
  have "required example_host (Plain (JStr ''  '')) (Obj []) [] = Inr (js_bool False)"
    using req[of "Plain (JStr ''  '')" "Obj []" "[]"] by (simp add: trim_def is_space_def)
  moreover have "required example_host (Plain (JBool False)) (Obj []) [] = Inr (js_bool True)"
    using req[of "Plain (JBool False)" "Obj []" "[]"] by (simp add: trim_def is_space_def)
  ultimately show ?thesis
    using bspec[OF bspec[OF rules name] v] by simp
qed

section \<open>Formatting a message\<close>

text \<open>
  Claim C6 says that \<^verbatim>\<open>formatErrorMessage\<close> takes the rule's default template, or the
  fallback \<^verbatim>\<open>'Invalid value'\<close> when the rule is unknown, and replaces every occurrence of
  \<^verbatim>\<open>{key}\<close> by the text form of the value. The fallback is written
  \<^verbatim>\<open>this.errorMessages.get(ruleName) || 'Invalid value'\<close>, so it also stands in for the
  template of a known rule when that template is the empty string: a rule registered
  with the template \<^verbatim>\<open>''\<close> is formatted as \<^verbatim>\<open>'Invalid value'\<close>. And the value is handed to
  \<^verbatim>\<open>replace\<close> as a replacement pattern, not as a text: the value \<^verbatim>\<open>'$$'\<close> puts a single
  dollar sign in the message.
\<close>

theorem formatErrorMessage_counterexample:
  "Map_get (errorMessages (addValidationRule (FormValidator example_host) ''code'' accept_all [])) ''code''
     = Some []
   \<and> snd (formatErrorMessage example_host
            (addValidationRule (FormValidator example_host) ''code'' accept_all []) ''code'' (Obj []))
     = Inr ''Invalid value''
   \<and> snd (formatErrorMessage example_host (FormValidator example_host) ''min'' (Obj [(''value'', JStr ''$$'')]))
     = Inr ''Value must be at least $''"
  by (simp add: eval_simps Map_get_Map_set)

text \<open>
  Claim C6, amended. \<^verbatim>\<open>formatErrorMessage(ruleName, params)\<close> starts from the rule's default
  template, or from the fallback \<^verbatim>\<open>'Invalid value'\<close> when the rule is unknown or its template
  is the empty string. When the names in \<^verbatim>\<open>params\<close> are made of letters, digits and
  underscores and the text forms of the values contain no dollar sign, it goes through
  the keys of \<^verbatim>\<open>params\<close> in their order and, for exactly those keys whose value is not
  \<^verbatim>\<open>null\<close>, not \<^verbatim>\<open>undefined\<close> and not the empty string, replaces every occurrence of
  \<^verbatim>\<open>{key}\<close> in the message as the keys before have left it by the value's text form. A
  key without a matching placeholder changes nothing, and a placeholder \<^verbatim>\<open>{k}\<close> of the
  template whose name \<open>k\<close> is no key of \<^verbatim>\<open>params\<close> remains in the output. When \<^verbatim>\<open>params\<close> is
  no object the template is returned as it is. In particular
  \<^verbatim>\<open>formatErrorMessage('minLength', {length: 5})\<close> on a new validator yields exactly
  \<^verbatim>\<open>'Must be at least 5 characters long'\<close>. The state is returned unchanged.
\<close>

theorem formatErrorMessage_substitutes:
  assumes "list_all (\<lambda>(k, v). plain_key k \<and> dollar_free (text_form h v)) kvs"
  shows "formatErrorMessage h s ruleName (Obj kvs) = (s, Inr (substitute_all h kvs (template_of s ruleName)))
     \<and> template_of s ruleName =
         (case Map_get (errorMessages s) ruleName of
            None \<Rightarrow> ''Invalid value''
          | Some m \<Rightarrow> if m = [] then ''Invalid value'' else m)
     \<and> (\<forall>k v m. \<not> sublist (placeholder k) m \<longrightarrow> substitute_all h [(k, v)] m = m)
     \<and> (\<forall>k. plain_key k \<and> k \<notin> set (map fst kvs) \<and> sublist (placeholder k) (template_of s ruleName) \<longrightarrow>
           sublist (placeholder k) (substitute_all h kvs (template_of s ruleName)))
     \<and> formatErrorMessage h s ruleName (Prim v) = (s, Inr (template_of s ruleName))
     \<and> formatErrorMessage h (FormValidator h) ''minLength'' (Obj [(''length'', JNum (Fin 5))]) =
         (FormValidator h, Inr ''Must be at least 5 characters long'')"
proof (intro conjI allI impI)
  show "formatErrorMessage h s ruleName (Obj kvs) = (s, Inr (substitute_all h kvs (template_of s ruleName)))"
    by (simp add: formatErrorMessage_def format_entries_plain[OF assms])
next
  show "template_of s ruleName =
         (case Map_get (errorMessages s) ruleName of
            None \<Rightarrow> ''Invalid value''
          | Some m \<Rightarrow> if m = [] then ''Invalid value'' else m)"
    by (simp add: template_of_def)
next
  fix k v m
  assume "\<not> sublist (placeholder k) m"
  then show "substitute_all h [(k, v)] m = m"
    by (simp add: substitute_all_def replace_every_absent)
next
  fix k
  assume k: "plain_key k \<and> k \<notin> set (map fst kvs) \<and> sublist (placeholder k) (template_of s ruleName)"
  have "j \<noteq> k" if "(j, w) \<in> set kvs" for j w
    using that k by (metis fst_conv image_eqI set_map)
  then have "list_all (\<lambda>(j, v). plain_key j \<and> j \<noteq> k) kvs"
    using assms by (auto simp: list_all_iff)
  then show "sublist (placeholder k) (substitute_all h kvs (template_of s ruleName))"
    using k substitute_all_keeps by blast
next
  show "formatErrorMessage h s ruleName (Prim v) = (s, Inr (template_of s ruleName))"
    by (cases v) (simp_all add: formatErrorMessage_def)
next
  show "formatErrorMessage h (FormValidator h) ''minLength'' (Obj [(''length'', JNum (Fin 5))]) =
         (FormValidator h, Inr ''Must be at least 5 characters long'')"
    by (simp add: eval_simps)
qed

theorem formatErrorMessage_substitutes_witness:
  "formatErrorMessage example_host (FormValidator example_host) ''age''
     (Obj [(''min'', JNum (Fin 18)), (''max'', JStr ''65''), (''unit'', JStr ''years''), (''note'', JStr [])])
   = (FormValidator example_host, Inr ''Please enter a valid age between 18 and 65'')
   \<and> substitute_all example_host [(''unit'', JStr ''years'')] ''Please enter a valid date''
     = ''Please enter a valid date''
   \<and> sublist (placeholder ''max'')
       (substitute_all example_host [(''min'', JNum (Fin 18))]
          (template_of (FormValidator example_host) ''age''))"
proof -
  have plain: "list_all (\<lambda>(k, v). plain_key k \<and> dollar_free (text_form example_host v))
      [(''min'', JNum (Fin 18)), (''max'', JStr ''65''), (''unit'', JStr ''years''), (''note'', JStr [])]"
    by (simp add: plain_key_def dollar_free_def plain_char_def is_upper_def is_lower_def is_digit_def
          digit_chars_def show_int_def)
  have plain': "list_all (\<lambda>(k, v). plain_key k \<and> dollar_free (text_form example_host v))
      [(''min'', JNum (Fin 18))]"
    by (simp add: plain_key_def dollar_free_def plain_char_def is_upper_def is_lower_def is_digit_def
          digit_chars_def show_int_def)
  note t = formatErrorMessage_substitutes[OF plain, of "FormValidator example_host" "''age''"]
  note t' = formatErrorMessage_substitutes[OF plain', of "FormValidator example_host" "''age''"]
  have one: "formatErrorMessage example_host (FormValidator example_host) ''age''
     (Obj [(''min'', JNum (Fin 18)), (''max'', JStr ''65''), (''unit'', JStr ''years''), (''note'', JStr [])])
   = (FormValidator example_host, Inr ''Please enter a valid age between 18 and 65'')"
    using t[THEN conjunct1]
    by (simp add: substitute_all_def substitutable_def template_of_def state_simps placeholder_def
          show_int_def digit_chars_def)
  have absent: "\<not> sublist (placeholder ''unit'') ''Please enter a valid date''"
    by (simp add: placeholder_def sublist_Cons_right)
  have two: "substitute_all example_host [(''unit'', JStr ''years'')] ''Please enter a valid date''
     = ''Please enter a valid date''"
    using t[THEN conjunct2, THEN conjunct2, THEN conjunct1, rule_format, OF absent] .
  have present: "plain_key ''max'' \<and> ''max'' \<notin> set (map fst [(''min'', JNum (Fin 18))])
      \<and> sublist (placeholder ''max'') (template_of (FormValidator example_host) ''age'')"
    by (simp add: plain_key_def plain_char_def is_upper_def is_lower_def is_digit_def digit_chars_def
          placeholder_def template_of_def state_simps sublist_Cons_right)
  have three: "sublist (placeholder ''max'')
       (substitute_all example_host [(''min'', JNum (Fin 18))]
          (template_of (FormValidator example_host) ''age''))"
    using t'[THEN conjunct2, THEN conjunct2, THEN conjunct2, THEN conjunct1, rule_format, OF present] .
  show ?thesis using one two three by simp
qed

section \<open>Registering a rule twice\<close>

text \<open>
  Claim C7. Calling \<^verbatim>\<open>addValidationRule\<close> twice with the same name leaves the validator in
  the very state the second call alone would have left: the registry holds exactly the
  second predicate and the second message template under that name. Every later
  \<^verbatim>\<open>validateField\<close> evaluates a rule reference of that name with the second predicate. For a
  field configured with one such reference, \<^verbatim>\<open>validateField\<close> invokes the second predicate
  on the value and the reference's parameters and returns what that predicate decides:
  its exception, a valid result when it returns a value that counts as true, and otherwise
  the single error of that rule, with the message made from the second template. For a
  reference of that name at any place of a configuration, in any later state with the
  same registry, once the rules before it have run \<^verbatim>\<open>validateField\<close> goes on with the second
  predicate in the same way and then with the rules behind it. And \<^verbatim>\<open>formatErrorMessage\<close>
  formats the second template (the fallback \<^verbatim>\<open>'Invalid value'\<close> stands in for a template
  that is the empty string, which is the matter of claim C6).
\<close>

theorem last_registration_wins:
  "(let twice = addValidationRule (addValidationRule s name p1 m1) name p2 m2;
        configured = configureField twice f (Config (RuleList [r]));
        invoked = log_event configured (invocation v r)
    in twice = addValidationRule s name p2 m2
     \<and> Map_get (validationRules twice) name = Some p2
     \<and> Map_get (errorMessages twice) name = Some m2
     \<and> (ruleName_of r = name \<longrightarrow> outcome twice v fd r = Some (p2 v (ruleParams_of r) fd))
     \<and> (ruleName_of r = name \<longrightarrow>
          validateField h configured f v formData =
            (case p2 v (ruleParams_of r) (formData_or_default formData) of
               Inl e \<Rightarrow> (invoked, Inl e)
             | Inr x \<Rightarrow>
                 if falsy_arg x then
                   (case snd (failure_message h twice name (ruleParams_of r) (customMessage_of r)) of
                      Inl e \<Rightarrow> (invoked, Inl e)
                    | Inr m \<Rightarrow>
                        (invoked,
                         Inr \<lparr>isValid = False,
                               errors = [\<lparr>rule = name, message = m, params = ruleParams_of r\<rparr>]\<rparr>))
                 else (invoked, Inr \<lparr>isValid = True, errors = []\<rparr>)))
     \<and> (same_registry t twice
          \<and> Map_get (fieldConfigs t) g = Some (Config (RuleList (before @ q # rest)))
          \<and> ruleName_of q = name
          \<and> run_rules h t v (formData_or_default formData) before [] = (s1, Inr errs) \<longrightarrow>
          validateField h t g v formData =
            (case p2 v (ruleParams_of q) (formData_or_default formData) of
               Inl e \<Rightarrow> (log_event s1 (invocation v q), Inl e)
             | Inr x \<Rightarrow>
                 if falsy_arg x then
                   (case snd (failure_message h twice name (ruleParams_of q) (customMessage_of q)) of
                      Inl e \<Rightarrow> (log_event s1 (invocation v q), Inl e)
                    | Inr m \<Rightarrow>
                        returning
                          (run_rules h (log_event s1 (invocation v q)) v (formData_or_default formData) rest
                             (errs @ [\<lparr>rule = name, message = m, params = ruleParams_of q\<rparr>])))
                 else returning
                        (run_rules h (log_event s1 (invocation v q)) v (formData_or_default formData)
                           rest errs)))
     \<and> template_of twice name = (if m2 = [] then ''Invalid value'' else m2)
     \<and> (m2 \<noteq> [] \<longrightarrow> formatErrorMessage h twice name (Obj []) = (addValidationRule s name p2 m2, Inr m2)))"
proof -
  let ?w = "addValidationRule (addValidationRule s name p1 m1) name p2 m2"
  let ?c = "configureField ?w f (Config (RuleList [r]))"
  have w: "?w = addValidationRule s name p2 m2"
    by (simp add: addValidationRule_def Map_set_twice)
  have p2: "Map_get (validationRules ?w) name = Some p2"
    by (simp add: addValidationRule_def Map_get_Map_set)
  have m2: "Map_get (errorMessages ?w) name = Some m2"
    by (simp add: addValidationRule_def Map_get_Map_set)
  have out: "outcome ?w v fd r = Some (p2 v (ruleParams_of r) fd)" if "ruleName_of r = name"
    using p2 that by (simp add: outcome_def)
  have one: "validateField h ?c f v formData =
      (case p2 v (ruleParams_of r) (formData_or_default formData) of
         Inl e \<Rightarrow> (log_event ?c (invocation v r), Inl e)
       | Inr x \<Rightarrow>
           if falsy_arg x then
             (case snd (failure_message h ?w name (ruleParams_of r) (customMessage_of r)) of
                Inl e \<Rightarrow> (log_event ?c (invocation v r), Inl e)
              | Inr m \<Rightarrow>
                  (log_event ?c (invocation v r),
                   Inr \<lparr>isValid = False,
                         errors = [\<lparr>rule = name, message = m, params = ruleParams_of r\<rparr>]\<rparr>))
           else (log_event ?c (invocation v r), Inr \<lparr>isValid = True, errors = []\<rparr>))"
    if r: "ruleName_of r = name"
  proof -
    have cfg: "Map_get (fieldConfigs ?c) f = Some (Config (RuleList ([] @ r # [])))"
      by (simp add: configureField_def Map_get_Map_set)
    have pre: "run_rules h ?c v (formData_or_default formData) [] [] = (?c, Inr [])"
      by simp
    have p: "Map_get (validationRules ?c) (ruleName_of r) = Some p2"
      using p2 r by (simp add: configureField_def)
    have fm: "snd (failure_message h ?c name ps c) = snd (failure_message h ?w name ps c)" for ps c
      by (rule failure_message_snd) (simp add: same_registry_def configureField_def)
    show ?thesis
      unfolding validateField_at_rule[OF cfg pre p]
      by (simp add: r fm returning_def split: sum.splits)
  qed
  have any: "validateField h t g v formData =
      (case p2 v (ruleParams_of q) (formData_or_default formData) of
         Inl e \<Rightarrow> (log_event s1 (invocation v q), Inl e)
       | Inr x \<Rightarrow>
           if falsy_arg x then
             (case snd (failure_message h ?w name (ruleParams_of q) (customMessage_of q)) of
                Inl e \<Rightarrow> (log_event s1 (invocation v q), Inl e)
              | Inr m \<Rightarrow>
                  returning
                    (run_rules h (log_event s1 (invocation v q)) v (formData_or_default formData) rest
                       (errs @ [\<lparr>rule = name, message = m, params = ruleParams_of q\<rparr>])))
           else returning
                  (run_rules h (log_event s1 (invocation v q)) v (formData_or_default formData) rest errs))"
    if reg: "same_registry t ?w"
      and cfg: "Map_get (fieldConfigs t) g = Some (Config (RuleList (before @ q # rest)))"
      and q: "ruleName_of q = name"
      and pre: "run_rules h t v (formData_or_default formData) before [] = (s1, Inr errs)"
  proof -
    have p: "Map_get (validationRules t) (ruleName_of q) = Some p2"
      using p2 q reg by (simp add: same_registry_def)
    have fm: "snd (failure_message h t name ps c) = snd (failure_message h ?w name ps c)" for ps c
      by (rule failure_message_snd[OF reg])
    show ?thesis
      unfolding validateField_at_rule[OF cfg pre p] q fm by (rule refl)
  qed
  have tmpl: "template_of ?w name = (if m2 = [] then ''Invalid value'' else m2)"
    by (simp add: template_of_def m2)
  have fmt: "formatErrorMessage h ?w name (Obj []) = (addValidationRule s name p2 m2, Inr m2)" if "m2 \<noteq> []"
    using that tmpl by (simp add: formatErrorMessage_def w[symmetric])
  show ?thesis
    unfolding Let_def
    using w p2 m2 out one any tmpl fmt by blast
qed

theorem last_registration_wins_witness:
  "Map_get (errorMessages lenient_state) ''email'' = Some ''second''
   \<and> outcome lenient_state (Plain (JStr ''x'')) [] (Bare ''email'') = Some (Inr (js_bool True))
   \<and> validateField example_host
       (configureField lenient_state ''mail'' (Config (RuleList [Bare ''email''])))
       ''mail'' (Plain (JStr ''x'')) None =
       ((configureField lenient_state ''mail'' (Config (RuleList [Bare ''email''])))
          \<lparr>journal := [Invoked ''email'' (Plain (JStr ''x'')) (Obj [])]\<rparr>,
        Inr \<lparr>isValid = True, errors = []\<rparr>)
   \<and> validateField example_host
       (configureField severe_state ''mail'' (Config (RuleList [Bare ''email''])))
       ''mail'' (Plain (JStr ''a@b.c'')) None =
       ((configureField severe_state ''mail'' (Config (RuleList [Bare ''email''])))
          \<lparr>journal := [Invoked ''email'' (Plain (JStr ''a@b.c'')) (Obj [])]\<rparr>,
        Inr \<lparr>isValid = False,
              errors = [\<lparr>rule = ''email'', message = ''second'', params = Obj []\<rparr>]\<rparr>)
   \<and> validateField example_host
       (configureField severe_state ''mail'' (Config (RuleList [Bare ''required'', Bare ''email''])))
       ''mail'' (Plain (JStr ''a@b.c'')) None =
       ((configureField severe_state ''mail'' (Config (RuleList [Bare ''required'', Bare ''email''])))
          \<lparr>journal := [Invoked ''required'' (Plain (JStr ''a@b.c'')) (Obj []),
                        Invoked ''email'' (Plain (JStr ''a@b.c'')) (Obj [])]\<rparr>,
        Inr \<lparr>isValid = False,
              errors = [\<lparr>rule = ''email'', message = ''second'', params = Obj []\<rparr>]\<rparr>)
   \<and> snd (formatErrorMessage example_host lenient_state ''email'' (Obj [])) = Inr ''second''"
proof -
  let ?x = "Plain (JStr ''x'')" and ?a = "Plain (JStr ''a@b.c'')"
  let ?t = "configureField severe_state ''mail'' (Config (RuleList [Bare ''required'', Bare ''email'']))"
  note lenient =
    last_registration_wins[where s = "FormValidator example_host" and name = "''email''"
      and ?p1.0 = reject_all and ?m1.0 = "''first''" and ?p2.0 = accept_all and ?m2.0 = "''second''"
      and r = "Bare ''email''" and v = ?x and fd = "[]" and h = example_host and f = "''mail''"
      and formData = None, unfolded Let_def, folded lenient_state_def]
  note severe =
    last_registration_wins[where s = "FormValidator example_host" and name = "''email''"
      and ?p1.0 = accept_all and ?m1.0 = "''first''" and ?p2.0 = reject_all and ?m2.0 = "''second''"
      and r = "Bare ''email''" and v = ?a and h = example_host and f = "''mail''"
      and formData = None and t = ?t and g = "''mail''" and before = "[Bare ''required'']"
      and q = "Bare ''email''" and rest = "[]"
      and ?s1.0 = "?t\<lparr>journal := [Invoked ''required'' ?a (Obj [])]\<rparr>" and errs = "[]",
      unfolded Let_def, folded severe_state_def]
  have reg: "same_registry ?t severe_state"
    by (simp add: same_registry_def configureField_def)
  have cfg: "Map_get (fieldConfigs ?t) ''mail'' =
               Some (Config (RuleList ([Bare ''required''] @ Bare ''email'' # [])))"
    by (simp add: configureField_def Map_get_Map_set)
  have pre: "run_rules example_host ?t ?a (formData_or_default None) [Bare ''required''] [] =
               (?t\<lparr>journal := [Invoked ''required'' ?a (Obj [])]\<rparr>, Inr [])"
    by (simp add: severe_state_def eval_simps)
  have msg: "snd (failure_message example_host severe_state ''email'' (Obj []) None) = Inr ''second''"
    by (simp add: severe_state_def eval_simps Map_get_Map_set)
  have j: "journal severe_state = []" "journal lenient_state = []"
    by (simp_all add: severe_state_def lenient_state_def state_simps)
  have one: "Map_get (errorMessages lenient_state) ''email'' = Some ''second''"
    using lenient[THEN conjunct2, THEN conjunct2, THEN conjunct1] .
  have two: "outcome lenient_state ?x [] (Bare ''email'') = Some (Inr (js_bool True))"
    using lenient[THEN conjunct2, THEN conjunct2, THEN conjunct2, THEN conjunct1]
    by (simp add: accept_all_def)
  have three: "validateField example_host
       (configureField lenient_state ''mail'' (Config (RuleList [Bare ''email''])))
       ''mail'' ?x None =
       ((configureField lenient_state ''mail'' (Config (RuleList [Bare ''email''])))
          \<lparr>journal := [Invoked ''email'' ?x (Obj [])]\<rparr>,
        Inr \<lparr>isValid = True, errors = []\<rparr>)"
    using lenient[THEN conjunct2, THEN conjunct2, THEN conjunct2, THEN conjunct2, THEN conjunct1]
    by (simp add: accept_all_def js_bool_def log_event_def invocation_def configureField_simps(4) j)
  have four: "validateField example_host
       (configureField severe_state ''mail'' (Config (RuleList [Bare ''email''])))
       ''mail'' ?a None =
       ((configureField severe_state ''mail'' (Config (RuleList [Bare ''email''])))
          \<lparr>journal := [Invoked ''email'' ?a (Obj [])]\<rparr>,
        Inr \<lparr>isValid = False,
              errors = [\<lparr>rule = ''email'', message = ''second'', params = Obj []\<rparr>]\<rparr>)"
    using severe[THEN conjunct2, THEN conjunct2, THEN conjunct2, THEN conjunct2, THEN conjunct1]
    by (simp add: reject_all_def js_bool_def log_event_def invocation_def msg configureField_simps(4) j)
  have five: "validateField example_host ?t ''mail'' ?a None =
       (?t\<lparr>journal := [Invoked ''required'' ?a (Obj []), Invoked ''email'' ?a (Obj [])]\<rparr>,
        Inr \<lparr>isValid = False,
              errors = [\<lparr>rule = ''email'', message = ''second'', params = Obj []\<rparr>]\<rparr>)"
    using severe[THEN conjunct2, THEN conjunct2, THEN conjunct2, THEN conjunct2, THEN conjunct2,
                 THEN conjunct1] reg cfg pre
    by (simp add: reject_all_def js_bool_def log_event_def invocation_def msg returning_def)
  have six: "snd (formatErrorMessage example_host lenient_state ''email'' (Obj [])) = Inr ''second''"
    using lenient[THEN conjunct2, THEN conjunct2, THEN conjunct2, THEN conjunct2, THEN conjunct2,
                  THEN conjunct2, THEN conjunct2]
    by simp
  show ?thesis
    using one two three four five six by simp
qed

section \<open>Reading methods leave the validator's state alone\<close>

text \<open>
  Claim C10. \<^verbatim>\<open>validateField\<close>, \<^verbatim>\<open>validateForm\<close>, \<^verbatim>\<open>formatErrorMessage\<close> and
  \<^verbatim>\<open>getAvailableRules\<close> never modify the validator's state: after any of these calls, on
  any arguments and whether the call returns or throws, the rule registry (predicates and
  message templates) and the field configuration store are exactly as they were before.
  The methods that change them are \<^verbatim>\<open>addValidationRule\<close>, which leaves the given predicate
  and template registered under the name, \<^verbatim>\<open>configureField\<close> and \<^verbatim>\<open>configureFields\<close>, which
  leave the given configuration stored for the field, \<^verbatim>\<open>resetField\<close>, which leaves the field
  without configuration, and \<^verbatim>\<open>clearAll\<close>, which leaves the store empty.
\<close>

theorem validators_read_only:
  "store_of (fst (validateField h s f v fd)) = store_of s
   \<and> store_of (fst (validateForm h s formData)) = store_of s
   \<and> store_of (fst (formatErrorMessage h s ruleName ps)) = store_of s
   \<and> store_of (fst (getAvailableRules s)) = store_of s
   \<and> Map_get (validationRules (addValidationRule s ruleName p msg)) ruleName = Some p
   \<and> Map_get (errorMessages (addValidationRule s ruleName p msg)) ruleName = Some msg
   \<and> Map_get (fieldConfigs (configureField s f c)) f = Some c
   \<and> Map_get (fieldConfigs (configureFields s (cs @ [(f, c)]))) f = Some c
   \<and> Map_get (fieldConfigs (resetField s f)) f = None
   \<and> fieldConfigs (clearAll s) = []"
proof -
  obtain ev where "fst (validateField h s f v fd) = s\<lparr>journal := journal s @ ev\<rparr>"
    using validateField_rel[of s s h f v fd] by blast
  moreover obtain ev' where "fst (validateForm h s formData) = s\<lparr>journal := journal s @ ev'\<rparr>"
    using validateForm_rel[of s s h formData] by blast
  moreover have "fst (formatErrorMessage h s ruleName ps) = s"
    by (subst formatErrorMessage_eq) simp
  ultimately have readers:
    "store_of (fst (validateField h s f v fd)) = store_of s"
    "store_of (fst (validateForm h s formData)) = store_of s"
    "store_of (fst (formatErrorMessage h s ruleName ps)) = store_of s"
    "store_of (fst (getAvailableRules s)) = store_of s"
    by (simp_all add: store_of_journal getAvailableRules_def)
  have writers:
    "Map_get (validationRules (addValidationRule s ruleName p msg)) ruleName = Some p"
    "Map_get (errorMessages (addValidationRule s ruleName p msg)) ruleName = Some msg"
    "Map_get (fieldConfigs (configureField s f c)) f = Some c"
    "Map_get (fieldConfigs (configureFields s (cs @ [(f, c)]))) f = Some c"
    "Map_get (fieldConfigs (resetField s f)) f = None"
    "fieldConfigs (clearAll s) = []"
    by (simp_all add: addValidationRule_def configureField_def configureFields_def resetField_def
          clearAll_def Map_get_Map_set Map_get_Map_delete)
  from readers writers show ?thesis by simp
qed

theorem validators_read_only_witness:
  "store_of (fst (validateField example_host
      (configureField (FormValidator example_host) ''email''
         (Config (RuleList [Bare ''required'', Bare ''nosuchrule''])))
      ''email'' (Plain (JStr [])) None))
   = store_of (configureField (FormValidator example_host) ''email''
         (Config (RuleList [Bare ''required'', Bare ''nosuchrule''])))"
  using validators_read_only[of example_host
      "configureField (FormValidator example_host) ''email''
         (Config (RuleList [Bare ''required'', Bare ''nosuchrule'']))"
      "''email''" "Plain (JStr [])" None]
  by simp

section \<open>Validating a form twice\<close>

text \<open>
  Claim C8. For every registry and configuration state and every \<^verbatim>\<open>formData\<close> snapshot,
  calling \<^verbatim>\<open>validateForm(formData)\<close> twice in succession with the same snapshot gives two
  identical outcomes: the second call, made in the state the first one left, returns the
  same \<^verbatim>\<open>FormValidationResult\<close> (same \<^verbatim>\<open>isValid\<close>, same per-field results, same flattened
  errors), or throws the same exception. The predicates of the model are functions of
  their arguments, so they are pure.
\<close>

theorem validateForm_twice:
  "snd (validateForm h (fst (validateForm h s fd)) fd) = snd (validateForm h s fd)"
proof -
  obtain ev where "fst (validateForm h s fd) = s\<lparr>journal := journal s @ ev\<rparr>"
    using validateForm_rel[of s s h fd] by blast
  then have "store_of (fst (validateForm h s fd)) = store_of s"
    by (simp add: store_of_journal)
  from validateForm_rel[OF this, of h fd] show ?thesis by metis
qed

theorem validateForm_twice_witness:
  "snd (validateForm example_host
         (fst (validateForm example_host username_state [(''username'', JStr ''ab'')]))
         [(''username'', JStr ''ab'')])
   = snd (validateForm example_host username_state [(''username'', JStr ''ab'')])"
  by (rule validateForm_twice)

section \<open>The built-in rules on values that count as false\<close>

text \<open>
  Claim C9. Each built-in rule other than \<^verbatim>\<open>required\<close> treats every value that JavaScript
  counts as false as empty, and passes on it: not only \<^verbatim>\<open>undefined\<close>, \<^verbatim>\<open>null\<close> and the empty
  string, but also the number \<^verbatim>\<open>0\<close>, \<^verbatim>\<open>NaN\<close> and the boolean \<^verbatim>\<open>false\<close>, whatever the
  parameters. For example the rule \<^verbatim>\<open>min\<close> with the parameters \<^verbatim>\<open>{value: 5}\<close> returns true on
  the number \<^verbatim>\<open>0\<close>, and the rule \<^verbatim>\<open>number\<close> returns true on \<^verbatim>\<open>false\<close>.
\<close>

theorem builtin_rules_pass_on_falsy:
  "(\<forall>name\<in>set optional_rule_names. falsy_any v \<longrightarrow>
      (\<exists>p. Map_get (validationRules (FormValidator h)) name = Some p \<and> p v ps fd = Inr (js_bool True)))
   \<and> falsy_any (Plain (JNum (Fin 0))) \<and> falsy_any (Plain (JBool False))
   \<and> Map_get (validationRules (FormValidator h)) ''min'' = Some (min_rule h)
   \<and> min_rule h (Plain (JNum (Fin 0))) (Obj [(''value'', JNum (Fin 5))]) fd = Inr (js_bool True)
   \<and> Map_get (validationRules (FormValidator h)) ''number'' = Some (number h)
   \<and> number h (Plain (JBool False)) ps fd = Inr (js_bool True)"
proof (intro conjI ballI impI)
  fix name
  assume "name \<in> set optional_rule_names" "falsy_any v"
  then show "\<exists>p. Map_get (validationRules (FormValidator h)) name = Some p \<and> p v ps fd = Inr (js_bool True)"
    using optional_rule_on_falsy by blast
qed (simp_all add: FormValidator_validationRules Map_get_def builtin_on_falsy)

theorem builtin_rules_pass_on_falsy_witness:
  "falsy_any (Plain (JNum NaN))
   \<and> (\<exists>p. Map_get (validationRules (FormValidator example_host)) ''max'' = Some p
        \<and> p (Plain (JNum NaN)) (Obj [(''value'', JNum (Fin 5))]) [] = Inr (js_bool True))"
proof -
  have name: "''max'' \<in> set optional_rule_names"
    by (simp add: optional_rule_names_def)
  have v: "falsy_any (Plain (JNum NaN))"
    by simp
  note rules = builtin_rules_pass_on_falsy[of "Plain (JNum NaN)" example_host "Obj [(''value'', JNum (Fin 5))]" "[]",
      THEN conjunct1]
  show ?thesis
    using bspec[OF rules name] v by simp
qed

end
